theory Spec2Isabelle
  imports Main "HOL-Library.Word"
begin

unbundle bit_operations_syntax

section \<open>Data model of bgpd/bgp_connection.c\<close>

text \<open>
  A C pointer is an address, an \<open>int\<close>; the null pointer is address 0. A pointer
  difference is the difference of the two addresses. The bytes the pointers of the write
  buffer point at live in a store from addresses to bytes.
\<close>

type_synonym byte = "8 word"
type_synonym addr = int
type_synonym mem = "addr \<Rightarrow> byte"

abbreviation (input) NULL :: addr where
  "NULL \<equiv> 0"

text \<open>Modelled from the spec: \<open>BGP_MAX_MSG_L\<close> of bgpd/bgp.h, which is not among the
  sources: the maximum length of a BGP message, 4096.\<close>

definition BGP_MAX_MSG_L :: int where
  "BGP_MAX_MSG_L = 4096"

text \<open>Modelled from the spec: \<open>BGP_MH_HEAD_L\<close> of bgpd/bgp.h, which is not among the
  sources: the length of a message header, 19 (16 bytes of marker, 2 of length, 1 of
  type).\<close>

definition BGP_MH_HEAD_L :: int where
  "BGP_MH_HEAD_L = 19"

text \<open>\<open>enum { bgp_wbuff_size = BGP_MAX_MSG_L * 10 }\<close>\<close>

definition bgp_wbuff_size :: int where
  "bgp_wbuff_size = BGP_MAX_MSG_L * 10"

text \<open>Modelled from the spec: \<open>fd_undef\<close> of lib/qpselect.h, which is not among the
  sources: the fd of a qfile that has no fd. Its value is not given; \<open>-1\<close> is taken.\<close>

definition fd_undef :: int where
  "fd_undef = - 1"

text \<open>The values of \<open>errno\<close> the source names, constants of the system's
  \<open>errno.h\<close>, with their Linux numbers.\<close>

definition EINTR :: int where
  "EINTR = 4"

definition EAGAIN :: int where
  "EAGAIN = 11"

definition EWOULDBLOCK :: int where
  "EWOULDBLOCK = 11"

text \<open>
  \<open>bgp_connection_ordinal_t\<close>: an enum of two values, primary 0 and secondary 1
  (the source confirms \<open>primary == (secondary ^ 1)\<close>). \<open>session->connections\<close> is
  an array with one slot for each.
\<close>

datatype bgp_connection_ordinal_t = bgp_connection_primary | bgp_connection_secondary

fun ordinal_num :: "bgp_connection_ordinal_t \<Rightarrow> nat" where
  "ordinal_num bgp_connection_primary = 0"
| "ordinal_num bgp_connection_secondary = 1"

definition ordinal_of :: "nat \<Rightarrow> bgp_connection_ordinal_t" where
  "ordinal_of n = (if n = 0 then bgp_connection_primary else bgp_connection_secondary)"

text \<open>The index \<open>connection->ordinal ^ 1\<close>.\<close>

definition ordinal_xor1 :: "bgp_connection_ordinal_t \<Rightarrow> bgp_connection_ordinal_t" where
  "ordinal_xor1 ord = ordinal_of (ordinal_num ord XOR 1)"

text \<open>\<open>bgp_connection_tags\<close>\<close>

fun bgp_connection_tags :: "bgp_connection_ordinal_t \<Rightarrow> string" where
  "bgp_connection_tags bgp_connection_primary = ''(primary)''"
| "bgp_connection_tags bgp_connection_secondary = ''(secondary)''"

datatype bgp_fsm_state_t =
    bgp_fsm_Initial | bgp_fsm_Idle | bgp_fsm_Connect | bgp_fsm_Active
  | bgp_fsm_OpenSent | bgp_fsm_OpenConfirm | bgp_fsm_Established | bgp_fsm_Stopping

datatype bgp_fsm_event_t = bgp_fsm_null_event | bgp_fsm_Sent_NOTIFICATION_message

text \<open>
  What a function of this file asks of its collaborators (the kernel and the FSM), in the
  order of the calls: every function below returns the list of these next to the new
  state.
\<close>

datatype shut_how = SHUT_RD | SHUT_RDWR

datatype effect =
    Sys_shutdown int shut_how
  | Sys_write int addr nat
  | Fsm_io_error int
  | Fsm_event bgp_fsm_event_t
  | Fsm_header_error
  | Msg_dispatch "byte list"

text \<open>Everything that stops a C run: a failed \<open>assert\<close>, a null pointer followed,
  a read or a copy outside the write buffer, a \<open>memcpy\<close> between overlapping ranges
  (undefined in ISO C), a loop that never ends.\<close>

datatype error = Assert_failed | Null_deref | Out_of_buffer | Memcpy_overlap | Loops_forever

text \<open>The collaborators' structures, with the fields this file relies on.\<close>

record qps_file =
  fd :: int
  selected :: bool
  read_mode :: bool
  write_mode :: bool

record qtimer =
  t_initialised :: bool
  t_set :: bool

text \<open>A \<open>struct stream\<close>: \<open>sdata\<close> is the bytes put so far (\<open>endp\<close> is its length).\<close>

record stream =
  ssize :: nat
  getp :: nat
  sdata :: "byte list"

type_synonym sockunion = nat
type_synonym bgp_open_state = nat
type_synonym bgp_notify = nat
type_synonym mqueue_block = nat

record bgp_wbuffer =
  full :: bool
  p_in :: addr
  p_out :: addr
  base :: addr
  limit :: addr

text \<open>\<open>struct bgp_session\<close>; \<open>s_\<close> marks the fields a connection has under the
  same name.\<close>

record bgp_session =
  connections :: "bgp_connection_ordinal_t \<Rightarrow> nat option"
  s_host :: string
  s_hold_timer_interval :: nat
  s_keepalive_timer_interval :: nat
  s_su_local :: "sockunion option"
  s_su_remote :: "sockunion option"
  s_open_recv :: "bgp_open_state option"
  accept :: bool
  s_log :: nat

text \<open>\<open>struct bgp_connection\<close>. \<open>next_conn\<close> and \<open>prev_conn\<close> are the fields
  \<open>next\<close> and \<open>prev\<close>; a pending queue that is \<open>None\<close> has no storage.\<close>

record bgp_connection =
  session :: "nat option"
  ordinal :: bgp_connection_ordinal_t
  accepted :: bool
  state :: bgp_fsm_state_t
  next_conn :: "nat option"
  prev_conn :: "nat option"
  post :: bgp_fsm_event_t
  fsm_active :: bool
  stopped :: nat
  notification :: "bgp_notify option"
  err :: int
  su_local :: "sockunion option"
  su_remote :: "sockunion option"
  hold_timer_interval :: nat
  keepalive_timer_interval :: nat
  read_pending :: int
  read_header :: bool
  notification_pending :: bool
  wbuff :: bgp_wbuffer
  qf :: qps_file
  hold_timer :: qtimer
  keepalive_timer :: qtimer
  log :: nat
  host :: string
  ibuf :: stream
  obuf :: stream
  pending_queue :: "mqueue_block list option"
  open_recv :: "bgp_open_state option"

text \<open>
  The BGP engine's memory: connections and sessions by address, and the static
  \<open>bgp_connection_queue\<close>. A pointer to a connection or a session is \<open>Some\<close> of its
  address, the null pointer is \<open>None\<close>.
\<close>

record engine =
  conn_heap :: "nat \<Rightarrow> bgp_connection"
  sess_heap :: "nat \<Rightarrow> bgp_session"
  bgp_connection_queue :: "nat option"

section \<open>The selector, timers, streams and queues the connection uses\<close>

text \<open>
  The source calls into lib/qpselect.c, lib/qtimers.c, lib/sockunion.c, lib/stream.c and
  lib/mqueue.c, none of which is among the sources. Each call does what the spec's
  selector, timer and buffer interface says, on the fields above.
\<close>

text \<open>Modelled from the spec: the two modes of a qfile (lib/qpselect.h), read readiness
  and write readiness.\<close>

datatype qps_mode = qps_read_mnum | qps_write_mnum

text \<open>Modelled from the spec: \<open>qps_file_init_new\<close>, a qfile with no fd and no mode
  enabled, on no selection.\<close>

definition qps_file_init_new :: qps_file where
  "qps_file_init_new = \<lparr>fd = fd_undef, selected = False, read_mode = False, write_mode = False\<rparr>"

text \<open>Modelled from the spec: \<open>qps_add_file\<close> installs the fd and registers the
  qfile with the selector.\<close>

definition qps_add_file :: "qps_file \<Rightarrow> int \<Rightarrow> qps_file" where
  "qps_add_file q f = q\<lparr>fd := f, selected := True\<rparr>"

text \<open>Modelled from the spec: \<open>qps_remove_file\<close> unregisters the qfile from the
  selector, which then watches it in no mode.\<close>

definition qps_remove_file :: "qps_file \<Rightarrow> qps_file" where
  "qps_remove_file q = q\<lparr>selected := False, read_mode := False, write_mode := False\<rparr>"

text \<open>Modelled from the spec: \<open>qps_file_unset_fd\<close> returns the fd and leaves the
  qfile with none.\<close>

definition qps_file_unset_fd :: "qps_file \<Rightarrow> int \<times> qps_file" where
  "qps_file_unset_fd q = (fd q, q\<lparr>fd := fd_undef\<rparr>)"

text \<open>Modelled from the spec: \<open>qps_file_fd\<close> is the fd of the qfile.\<close>

definition qps_file_fd :: "qps_file \<Rightarrow> int" where
  "qps_file_fd q = fd q"

text \<open>Modelled from the spec: \<open>qps_enable_mode\<close> switches read or write readiness
  on.\<close>

fun qps_enable_mode :: "qps_file \<Rightarrow> qps_mode \<Rightarrow> qps_file" where
  "qps_enable_mode q qps_read_mnum = q\<lparr>read_mode := True\<rparr>"
| "qps_enable_mode q qps_write_mnum = q\<lparr>write_mode := True\<rparr>"

text \<open>Modelled from the spec: \<open>qps_disable_modes\<close> switches read or write readiness
  off (the source passes the bit of one mode).\<close>

fun qps_disable_modes :: "qps_file \<Rightarrow> qps_mode \<Rightarrow> qps_file" where
  "qps_disable_modes q qps_read_mnum = q\<lparr>read_mode := False\<rparr>"
| "qps_disable_modes q qps_write_mnum = q\<lparr>write_mode := False\<rparr>"

text \<open>Modelled from the spec: \<open>qtimer_init_new\<close> gives an initialised, unarmed
  timer.\<close>

definition qtimer_init_new :: qtimer where
  "qtimer_init_new = \<lparr>t_initialised = True, t_set = False\<rparr>"

text \<open>Modelled from the spec: \<open>qtimer_unset\<close> unarms a timer, which stays
  initialised.\<close>

definition qtimer_unset :: "qtimer \<Rightarrow> qtimer" where
  "qtimer_unset t = t\<lparr>t_set := False\<rparr>"

text \<open>Modelled from the spec: \<open>sockunion_clear\<close> discards an endpoint; the pointer
  is null afterwards.\<close>

definition sockunion_clear :: "sockunion option \<Rightarrow> sockunion option" where
  "sockunion_clear su = None"

text \<open>Modelled from the spec: \<open>stream_new\<close> is an empty buffer of the given size.\<close>

definition stream_new :: "nat \<Rightarrow> stream" where
  "stream_new n = \<lparr>ssize = n, getp = 0, sdata = []\<rparr>"

text \<open>Modelled from the spec: \<open>stream_reset\<close> empties a buffer, which keeps its
  size.\<close>

definition stream_reset :: "stream \<Rightarrow> stream" where
  "stream_reset s = s\<lparr>getp := 0, sdata := []\<rparr>"

text \<open>Modelled from the spec: \<open>mqueue_local_init_new\<close> is an empty queue.\<close>

definition mqueue_local_init_new :: "mqueue_block list option" where
  "mqueue_local_init_new = Some []"

text \<open>Modelled from the spec: \<open>mqueue_local_reset_keep\<close> empties a queue, destroying
  its messages, and keeps its storage.\<close>

definition mqueue_local_reset_keep :: "mqueue_block list option \<Rightarrow> mqueue_block list option" where
  "mqueue_local_reset_keep q = Some []"

section \<open>Managing connection structures\<close>

text \<open>\<open>bgp_connection_init_host\<close>: the host is the session's host and the tag.\<close>

definition bgp_connection_init_host ::
  "bgp_session \<Rightarrow> bgp_connection \<Rightarrow> string \<Rightarrow> bgp_connection" where
  "bgp_connection_init_host s connection tag = connection\<lparr>host := s_host s @ tag\<rparr>"

text \<open>\<open>bgp_connection_get_sibling\<close>\<close>

definition bgp_connection_get_sibling :: "engine \<Rightarrow> nat \<Rightarrow> nat option" where
  "bgp_connection_get_sibling e cid =
     (let connection = conn_heap e cid in
      case session connection of
        None \<Rightarrow> None
      | Some sid \<Rightarrow> connections (sess_heap e sid) (ordinal_xor1 (ordinal connection)))"

text \<open>\<open>bgp_connection_make_primary\<close>, statement by statement. The session pointer is
  followed without a test, so a connection without a session stops the run.\<close>

definition bgp_connection_make_primary :: "engine \<Rightarrow> nat \<Rightarrow> error + engine" where
  "bgp_connection_make_primary e cid =
     (let connection = conn_heap e cid in
      case session connection of
        None \<Rightarrow> Inl Null_deref
      | Some sid \<Rightarrow>
         (let s = sess_heap e sid;
              moved = (ordinal connection \<noteq> bgp_connection_primary);
              connection = (if moved then connection\<lparr>ordinal := bgp_connection_primary\<rparr>
                            else connection);
              s = (if moved
                   then s\<lparr>connections := (connections s)(bgp_connection_primary := Some cid)\<rparr>
                   else s);
              s = s\<lparr>connections := (connections s)(bgp_connection_secondary := None)\<rparr>;
              s = s\<lparr>s_open_recv := open_recv connection\<rparr>;
              connection = connection\<lparr>open_recv := None\<rparr>;
              connection = bgp_connection_init_host s connection '''';
              s = s\<lparr>s_hold_timer_interval := hold_timer_interval connection\<rparr>;
              s = s\<lparr>s_keepalive_timer_interval := s_keepalive_timer_interval s\<rparr>;
              s = s\<lparr>s_su_local := su_local connection\<rparr>;
              connection = connection\<lparr>su_local := None\<rparr>;
              s = s\<lparr>s_su_remote := su_remote connection\<rparr>;
              connection = connection\<lparr>su_remote := None\<rparr>
          in Inr (e\<lparr>conn_heap := (conn_heap e)(cid := connection),
                     sess_heap := (sess_heap e)(sid := s)\<rparr>)))"

text \<open>The structure after \<open>XCALLOC\<close> or \<open>memset(connection, 0, ...)\<close>: every field
  zero. The streams and the pending queue are pointers and embedded structures that
  \<open>bgp_connection_init_new\<close> fills in before it returns.\<close>

definition zero_connection :: bgp_connection where
  "zero_connection =
     \<lparr>session = None, ordinal = bgp_connection_primary, accepted = False,
      state = bgp_fsm_Initial, next_conn = None, prev_conn = None,
      post = bgp_fsm_null_event, fsm_active = False, stopped = 0, notification = None,
      err = 0, su_local = None, su_remote = None, hold_timer_interval = 0,
      keepalive_timer_interval = 0, read_pending = 0, read_header = False,
      notification_pending = False,
      wbuff = \<lparr>full = False, p_in = NULL, p_out = NULL, base = NULL, limit = NULL\<rparr>,
      qf = \<lparr>fd = 0, selected = False, read_mode = False, write_mode = False\<rparr>,
      hold_timer = \<lparr>t_initialised = False, t_set = False\<rparr>,
      keepalive_timer = \<lparr>t_initialised = False, t_set = False\<rparr>,
      log = 0, host = [], ibuf = stream_new 0, obuf = stream_new 0,
      pending_queue = None, open_recv = None\<rparr>"

text \<open>\<open>bgp_connection_init_new\<close>. The connection pointer given is \<open>cid\<close>; where the
  source is given a null pointer, \<open>cid\<close> is the address \<open>XCALLOC\<close> returns. Either
  way the structure is zeroised.\<close>

definition bgp_connection_init_new ::
  "engine \<Rightarrow> nat \<Rightarrow> nat \<Rightarrow> bgp_connection_ordinal_t \<Rightarrow> error + engine" where
  "bgp_connection_init_new e cid sid ord =
     (let s = sess_heap e sid in
      if connections s ord \<noteq> None then Inl Assert_failed
      else
        (let connection = zero_connection;
             connection = connection\<lparr>session := Some sid\<rparr>;
             connection = connection\<lparr>ordinal := ord\<rparr>;
             connection = connection\<lparr>accepted := (ord = bgp_connection_secondary)\<rparr>;
             s = s\<lparr>connections := (connections s)(ord := Some cid)\<rparr>;
             connection = connection\<lparr>qf := qps_file_init_new\<rparr>;
             connection = connection\<lparr>hold_timer := qtimer_init_new\<rparr>;
             connection = connection\<lparr>keepalive_timer := qtimer_init_new\<rparr>;
             connection = connection\<lparr>log := s_log s\<rparr>;
             connection = bgp_connection_init_host s connection (bgp_connection_tags ord);
             connection = connection\<lparr>ibuf := stream_new (nat BGP_MAX_MSG_L)\<rparr>;
             connection = connection\<lparr>obuf := stream_new (nat BGP_MAX_MSG_L)\<rparr>;
             connection = connection\<lparr>pending_queue := mqueue_local_init_new\<rparr>
         in Inr (e\<lparr>conn_heap := (conn_heap e)(cid := connection),
                    sess_heap := (sess_heap e)(sid := s)\<rparr>)))"

section \<open>The write buffer\<close>

text \<open>\<open>bgp_write_buffer_full\<close>: full if not enough room for a maximum size message.\<close>

definition bgp_write_buffer_full :: "bgp_wbuffer \<Rightarrow> bool" where
  "bgp_write_buffer_full wb = (limit wb - p_in wb < BGP_MAX_MSG_L)"

text \<open>\<open>bgp_write_buffer_empty\<close>\<close>

definition bgp_write_buffer_empty :: "bgp_wbuffer \<Rightarrow> bool" where
  "bgp_write_buffer_empty wb = (p_out wb = p_in wb)"

text \<open>\<open>bgp_write_buffer_init_new\<close>; \<open>a\<close> is the address \<open>XMALLOC\<close> returns.\<close>

definition bgp_write_buffer_init_new :: "addr \<Rightarrow> bgp_wbuffer \<Rightarrow> int \<Rightarrow> error + bgp_wbuffer" where
  "bgp_write_buffer_init_new a wb sz =
     (if base wb \<noteq> NULL then Inl Assert_failed
      else
        (let wb = wb\<lparr>base := a\<rparr>;
             wb = wb\<lparr>limit := base wb + sz\<rparr>;
             wb = wb\<lparr>p_out := base wb\<rparr>;
             wb = wb\<lparr>p_in := p_out wb\<rparr>;
             wb = wb\<lparr>full := bgp_write_buffer_full wb\<rparr>
         in if full wb then Inl Assert_failed else Inr wb))"

section \<open>Connection queue management\<close>

definition conn_upd :: "nat \<Rightarrow> (bgp_connection \<Rightarrow> bgp_connection) \<Rightarrow> engine \<Rightarrow> engine" where
  "conn_upd cid f e = e\<lparr>conn_heap := (conn_heap e)(cid := f (conn_heap e cid))\<rparr>"

text \<open>\<open>p->prev = v\<close> and \<open>p->next = v\<close> through a pointer \<open>p\<close> that may be null.\<close>

definition set_prev_of :: "nat option \<Rightarrow> nat option \<Rightarrow> engine \<Rightarrow> error + engine" where
  "set_prev_of p v e =
     (case p of None \<Rightarrow> Inl Null_deref
      | Some a \<Rightarrow> Inr (conn_upd a (\<lambda>c. c\<lparr>prev_conn := v\<rparr>) e))"

definition set_next_of :: "nat option \<Rightarrow> nat option \<Rightarrow> engine \<Rightarrow> error + engine" where
  "set_next_of p v e =
     (case p of None \<Rightarrow> Inl Null_deref
      | Some a \<Rightarrow> Inr (conn_upd a (\<lambda>c. c\<lparr>next_conn := v\<rparr>) e))"

text \<open>\<open>bgp_connection_queue_add\<close>\<close>

definition bgp_connection_queue_add :: "engine \<Rightarrow> nat \<Rightarrow> error + engine" where
  "bgp_connection_queue_add e cid =
     (if next_conn (conn_heap e cid) = None then
        (case bgp_connection_queue e of
           None \<Rightarrow>
             Inr (conn_upd cid (\<lambda>c. c\<lparr>prev_conn := Some cid\<rparr>)
                   (conn_upd cid (\<lambda>c. c\<lparr>next_conn := Some cid\<rparr>)
                     (e\<lparr>bgp_connection_queue := Some cid\<rparr>)))
         | Some q \<Rightarrow>
             (let e = conn_upd cid (\<lambda>c. c\<lparr>next_conn := Some q\<rparr>) e;
                  e = conn_upd cid (\<lambda>c. c\<lparr>prev_conn := prev_conn (conn_heap e q)\<rparr>) e
              in case set_prev_of (next_conn (conn_heap e cid)) (Some cid) e of
                   Inl x \<Rightarrow> Inl x
                 | Inr e \<Rightarrow> set_next_of (prev_conn (conn_heap e cid)) (Some cid) e))
      else Inr e)"

text \<open>\<open>bgp_connection_queue_del\<close>\<close>

definition bgp_connection_queue_del :: "engine \<Rightarrow> nat \<Rightarrow> error + engine" where
  "bgp_connection_queue_del e cid =
     (if next_conn (conn_heap e cid) \<noteq> None then
        (case (if Some cid = next_conn (conn_heap e cid) then
                 (if Some cid = prev_conn (conn_heap e cid) \<and> Some cid = bgp_connection_queue e
                  then Inr (e\<lparr>bgp_connection_queue := None\<rparr>)
                  else Inl Assert_failed)
               else
                 (let e = (if Some cid = bgp_connection_queue e
                           then e\<lparr>bgp_connection_queue := next_conn (conn_heap e cid)\<rparr>
                           else e)
                  in case set_prev_of (next_conn (conn_heap e cid))
                            (prev_conn (conn_heap e cid)) e of
                       Inl x \<Rightarrow> Inl x
                     | Inr e \<Rightarrow> set_next_of (prev_conn (conn_heap e cid))
                                  (next_conn (conn_heap e cid)) e)) of
           Inl x \<Rightarrow> Inl x
         | Inr e \<Rightarrow>
             Inr (conn_upd cid (\<lambda>c. c\<lparr>next_conn := None\<rparr>)
                   (conn_upd cid (\<lambda>c. c\<lparr>prev_conn := None\<rparr>) e)))
      else Inr e)"

section \<open>Opening and closing connections\<close>

text \<open>\<open>bgp_connection_close\<close>, statement by statement.\<close>

definition bgp_connection_close :: "bgp_connection \<Rightarrow> bgp_connection \<times> effect list" where
  "bgp_connection_close connection =
     (let connection = connection\<lparr>qf := qps_remove_file (qf connection)\<rparr>;
          fd = fst (qps_file_unset_fd (qf connection));
          connection = connection\<lparr>qf := snd (qps_file_unset_fd (qf connection))\<rparr>;
          effs = (if fd \<noteq> fd_undef then [Sys_shutdown fd SHUT_RDWR] else []);
          connection = connection\<lparr>su_local := sockunion_clear (su_local connection)\<rparr>;
          connection = connection\<lparr>su_remote := sockunion_clear (su_remote connection)\<rparr>;
          connection = connection\<lparr>hold_timer := qtimer_unset (hold_timer connection)\<rparr>;
          connection = connection\<lparr>keepalive_timer := qtimer_unset (keepalive_timer connection)\<rparr>;
          connection = connection\<lparr>ibuf := stream_reset (ibuf connection)\<rparr>;
          connection = connection\<lparr>obuf := stream_reset (obuf connection)\<rparr>;
          connection = connection\<lparr>read_pending := 0\<rparr>;
          connection = connection\<lparr>read_header := False\<rparr>;
          connection = connection\<lparr>notification_pending := False\<rparr>;
          connection = connection\<lparr>wbuff := (wbuff connection)\<lparr>p_in := base (wbuff connection)\<rparr>\<rparr>;
          connection = connection\<lparr>wbuff := (wbuff connection)\<lparr>p_out := base (wbuff connection)\<rparr>\<rparr>;
          connection = connection\<lparr>wbuff := (wbuff connection)\<lparr>full := False\<rparr>\<rparr>;
          connection = connection\<lparr>pending_queue := mqueue_local_reset_keep (pending_queue connection)\<rparr>
      in (connection, effs))"

text \<open>\<open>bgp_connection_open\<close>; it writes to the session too (the accept flag).\<close>

definition bgp_connection_open :: "engine \<Rightarrow> nat \<Rightarrow> int \<Rightarrow> error + engine" where
  "bgp_connection_open e cid f =
     (let connection = conn_heap e cid in
      case session connection of
        None \<Rightarrow> Inl Null_deref
      | Some sid \<Rightarrow>
         (let s = sess_heap e sid;
              s = (if ordinal connection = bgp_connection_secondary then s\<lparr>accept := False\<rparr> else s);
              connection = connection\<lparr>qf := qps_add_file (qf connection) f\<rparr>;
              connection = connection\<lparr>post := bgp_fsm_null_event\<rparr>;
              connection = connection\<lparr>err := 0\<rparr>;
              connection = connection\<lparr>stopped := 0\<rparr>;
              connection = connection\<lparr>open_recv := None\<rparr>;
              connection = connection\<lparr>notification := None\<rparr>;
              connection = connection\<lparr>hold_timer_interval := s_hold_timer_interval s\<rparr>;
              connection = connection\<lparr>keepalive_timer_interval := s_keepalive_timer_interval s\<rparr>
          in Inr (e\<lparr>conn_heap := (conn_heap e)(cid := connection),
                     sess_heap := (sess_heap e)(sid := s)\<rparr>)))"

section \<open>Memory of the write buffer\<close>

text \<open>The \<open>n\<close> bytes at address \<open>a\<close>, and the store with the bytes \<open>bs\<close> put at
  \<open>a\<close>.\<close>

definition load :: "mem \<Rightarrow> addr \<Rightarrow> nat \<Rightarrow> byte list" where
  "load m a n = map (\<lambda>i. m (a + int i)) [0..<n]"

fun store_bytes :: "mem \<Rightarrow> addr \<Rightarrow> byte list \<Rightarrow> mem" where
  "store_bytes m a [] = m"
| "store_bytes m a (b # bs) = store_bytes (m(a := b)) (a + 1) bs"

text \<open>
  \<open>memcpy(dst, src, n)\<close> of the C library. ISO C defines it for ranges that do not
  overlap: the \<open>n\<close> bytes at \<open>src\<close> are then at \<open>dst\<close>. Between ranges that
  overlap its behaviour is undefined (that is what \<open>memmove\<close> is for), and the run
  stops here, as at every other undefined step.
\<close>

definition memcpy :: "mem \<Rightarrow> addr \<Rightarrow> addr \<Rightarrow> nat \<Rightarrow> error + mem" where
  "memcpy m dst src n =
     (if n \<noteq> 0 \<and> dst < src + int n \<and> src < dst + int n then Inl Memcpy_overlap
      else Inr (store_bytes m dst (load m src n)))"

text \<open>Modelled from the spec: \<open>bgp_msg_get_mlen\<close>, which is not among the sources: the
  length field of the message header at \<open>p\<close>, two bytes in network byte order after
  the 16 bytes of marker.\<close>

definition bgp_msg_get_mlen :: "mem \<Rightarrow> addr \<Rightarrow> nat" where
  "bgp_msg_get_mlen m p = unat (m (p + 16)) * 256 + unat (m (p + 17))"

section \<open>Part close\<close>

text \<open>
  The \<open>do ... while ((p + mlen) <= wb->p_out)\<close> loop of \<open>bgp_connection_part_close\<close>,
  entered with \<open>p\<close> and \<open>mlen\<close>: one call is one pass of the body and the test. The
  length is read inside the buffer or the run stops. A pass that reads length 0 and goes
  round again meets the same \<open>p\<close> and the same bytes for ever.
\<close>

function part_close_walk :: "mem \<Rightarrow> bgp_wbuffer \<Rightarrow> addr \<Rightarrow> nat \<Rightarrow> error + addr \<times> nat" where
  "part_close_walk m wb p mlen =
     (let p = p + int mlen in
      if p < base wb \<or> limit wb < p + 18 then Inl Out_of_buffer
      else
        (let mlen = bgp_msg_get_mlen m p in
         if p + int mlen \<le> p_out wb
         then (if mlen = 0 then Inl Loops_forever else part_close_walk m wb p mlen)
         else Inr (p, mlen)))"
  by pat_completeness auto
termination
  by (relation "measure (\<lambda>(m, wb, p, mlen). nat (p_out wb - (p + int mlen)))") auto

declare part_close_walk.simps [simp del]

text \<open>\<open>bgp_connection_part_close\<close>, statement by statement; the bytes of the write
  buffer are in \<open>m\<close>.\<close>

definition bgp_connection_part_close ::
  "mem \<Rightarrow> bgp_connection \<Rightarrow> error + bgp_connection \<times> mem \<times> effect list" where
  "bgp_connection_part_close m connection =
     (let wb = wbuff connection;
          fd = qps_file_fd (qf connection);
          effs = (if fd \<noteq> fd_undef then [Sys_shutdown fd SHUT_RD] else []);
          connection = (if fd \<noteq> fd_undef
                        then connection\<lparr>qf := qps_disable_modes (qf connection) qps_read_mnum\<rparr>
                        else connection);
          connection = connection\<lparr>ibuf := stream_reset (ibuf connection)\<rparr>;
          connection = connection\<lparr>read_pending := 0\<rparr>;
          connection = connection\<lparr>read_header := False\<rparr>;
          connection = connection\<lparr>obuf := stream_reset (obuf connection)\<rparr>;
          connection = connection\<lparr>notification_pending := False\<rparr>
      in case (if p_in wb \<noteq> p_out wb then
                 (case part_close_walk m wb (base wb) 0 of
                    Inl x \<Rightarrow> Inl x
                  | Inr (p, mlen) \<Rightarrow>
                      (if p = p_out wb then
                         Inr (m, wb\<lparr>p_out := base wb + (p_out wb - p), p_in := base wb + 0\<rparr>)
                       else if limit wb < p + int mlen then Inl Out_of_buffer
                       else
                         (case memcpy m (base wb) p mlen of
                            Inl x \<Rightarrow> Inl x
                          | Inr m \<Rightarrow>
                              Inr (m, wb\<lparr>p_out := base wb + (p_out wb - p),
                                         p_in := base wb + int mlen\<rparr>))))
               else Inr (m, wb\<lparr>p_out := base wb, p_in := base wb\<rparr>)) of
           Inl x \<Rightarrow> Inl x
         | Inr (m, wb) \<Rightarrow>
             (let wb = wb\<lparr>full := bgp_write_buffer_full wb\<rparr> in
              if full wb then Inl Assert_failed
              else
                Inr (connection\<lparr>wbuff := wb,
                       pending_queue := mqueue_local_reset_keep (pending_queue connection)\<rparr>,
                     m, effs)))"

section \<open>Writing to a connection\<close>

text \<open>
  What the kernel answers to one \<open>write\<close>: the count written, or \<open>-1\<close> with an
  \<open>errno\<close>. A socket is the list of its answers to the writes to come; a socket whose
  list has run out answers \<open>EAGAIN\<close>. The count a \<open>write\<close> is asked for is a
  \<open>size_t\<close>, 64 bits wide, so an \<open>int\<close> passed for it is taken modulo \<open>2 ^ 64\<close>.
\<close>

datatype sys_result = Done nat | Failed int

definition size_t_of :: "int \<Rightarrow> nat" where
  "size_t_of i = nat (i mod 2 ^ 64)"

text \<open>
  Modelled from the spec: \<open>stream_flush_try\<close> of lib/stream.c, which is not among the
  sources: one attempt to write the unsent bytes of the stream to the socket without
  blocking. It returns 0 when all of them went (the stream is then reset), the number of
  bytes left when only some went or the socket would block, and a negative value, with
  \<open>errno\<close>, on an error; \<open>EINTR\<close> is retried. The result is the value returned,
  \<open>errno\<close>, the stream and the socket's answers left.
\<close>

fun stream_flush_try :: "stream \<Rightarrow> sys_result list \<Rightarrow> int \<times> int \<times> stream \<times> sys_result list" where
  "stream_flush_try s [] =
     (if length (sdata s) - getp s = 0 then (0, 0, stream_reset s, [])
      else (int (length (sdata s) - getp s), 0, s, []))"
| "stream_flush_try s (a # script) =
     (let have = length (sdata s) - getp s in
      if have = 0 then (0, 0, stream_reset s, a # script)
      else
        (case a of
           Done n \<Rightarrow>
             (if have \<le> n then (0, 0, stream_reset s, script)
              else (int (have - n), 0, s\<lparr>getp := getp s + n\<rparr>, script))
         | Failed e \<Rightarrow>
             (if e = EINTR then stream_flush_try s script
              else if e = EAGAIN \<or> e = EWOULDBLOCK then (int have, 0, s, script)
              else (- 1, e, s, script))))"

text \<open>
  Modelled from the spec: \<open>stream_transfer\<close> of lib/stream.c, which is not among the
  sources: it copies the complete contents of the stream to \<open>dst\<close>, resets the stream
  and returns the address after the copy. The source hands it the limit of the write
  buffer: a copy that would pass the limit stops the run.
\<close>

definition stream_transfer ::
  "mem \<Rightarrow> addr \<Rightarrow> stream \<Rightarrow> addr \<Rightarrow> error + mem \<times> stream \<times> addr" where
  "stream_transfer m dst s lim =
     (if lim < dst + int (length (sdata s)) then Inl Out_of_buffer
      else Inr (store_bytes m dst (sdata s), stream_reset s, dst + int (length (sdata s))))"

text \<open>\<open>bgp_connection_write_direct\<close>; \<open>a\<close> is the address \<open>XMALLOC\<close> returns should
  the write buffer be allocated here. The result starts with the value returned.\<close>

definition bgp_connection_write_direct ::
  "addr \<Rightarrow> mem \<Rightarrow> sys_result list \<Rightarrow> bgp_connection \<Rightarrow>
     error + int \<times> bgp_connection \<times> mem \<times> sys_result list \<times> effect list" where
  "bgp_connection_write_direct a m script connection =
     (case stream_flush_try (obuf connection) script of
        (ret, errno, ob, script) \<Rightarrow>
          (let connection = connection\<lparr>obuf := ob\<rparr> in
           if ret = 0 then Inr (1, connection, m, script, [])
           else if ret > 0 then
             (case (if base (wbuff connection) = NULL
                    then bgp_write_buffer_init_new a (wbuff connection) bgp_wbuff_size
                    else Inr (wbuff connection)) of
                Inl x \<Rightarrow> Inl x
              | Inr wb \<Rightarrow>
                  (case stream_transfer m (base wb) (obuf connection) (limit wb) of
                     Inl x \<Rightarrow> Inl x
                   | Inr (m, ob, p) \<Rightarrow>
                       (let wb = wb\<lparr>p_in := p\<rparr>;
                            wb = wb\<lparr>p_out := p_in wb - ret\<rparr>;
                            connection = connection\<lparr>wbuff := wb, obuf := ob\<rparr>;
                            connection = connection\<lparr>qf := qps_enable_mode (qf connection) qps_write_mnum\<rparr>
                        in Inr (0, connection, m, script, []))))
           else Inr (- 1, connection, m, script, [Fsm_io_error errno])))"

text \<open>\<open>bgp_connection_write\<close>\<close>

definition bgp_connection_write ::
  "addr \<Rightarrow> mem \<Rightarrow> sys_result list \<Rightarrow> bgp_connection \<Rightarrow>
     error + int \<times> bgp_connection \<times> mem \<times> sys_result list \<times> effect list" where
  "bgp_connection_write a m script connection =
     (let wb = wbuff connection in
      if bgp_write_buffer_empty wb then bgp_connection_write_direct a m script connection
      else
        (case stream_transfer m (p_in wb) (obuf connection) (limit wb) of
           Inl x \<Rightarrow> Inl x
         | Inr (m, ob, p) \<Rightarrow>
             Inr (1, connection\<lparr>wbuff := wb\<lparr>p_in := p\<rparr>, obuf := ob\<rparr>, m, script, [])))"

text \<open>
  The \<open>while (have != 0)\<close> loop of \<open>bgp_connection_write_action\<close>. It ends with the
  buffer drained (\<open>True\<close>) or by the \<open>return\<close> inside it (\<open>False\<close>).
\<close>

fun write_action_loop ::
  "int \<Rightarrow> bgp_wbuffer \<Rightarrow> int \<Rightarrow> sys_result list \<Rightarrow> effect list \<Rightarrow>
     bgp_wbuffer \<times> sys_result list \<times> effect list \<times> bool" where
  "write_action_loop f wb have [] effs =
     (if have = 0 then (wb, [], effs, True)
      else (wb, [], effs @ [Sys_write f (p_out wb) (size_t_of have)], False))"
| "write_action_loop f wb have (a # script) effs =
     (if have = 0 then (wb, a # script, effs, True)
      else
        (let effs = effs @ [Sys_write f (p_out wb) (size_t_of have)] in
         case a of
           Done ret \<Rightarrow>
             (if ret > 0
              then write_action_loop f (wb\<lparr>p_out := p_out wb + int ret\<rparr>) (have - int ret) script effs
              else write_action_loop f wb have script effs)
         | Failed e \<Rightarrow>
             (if e = EINTR then write_action_loop f wb have script effs
              else if e \<noteq> EAGAIN \<and> e \<noteq> EWOULDBLOCK
              then (wb, script, effs @ [Fsm_io_error e], False)
              else (wb, script, effs, False))))"

text \<open>\<open>bgp_connection_write_action\<close>, for the connection at \<open>cid\<close>.\<close>

definition bgp_connection_write_action ::
  "engine \<Rightarrow> nat \<Rightarrow> sys_result list \<Rightarrow> error + engine \<times> sys_result list \<times> effect list" where
  "bgp_connection_write_action e cid script =
     (let connection = conn_heap e cid;
          wb = wbuff connection;
          have = p_out wb - p_in wb
      in case write_action_loop (qps_file_fd (qf connection)) wb have script [] of
           (wb, script, effs, drained) \<Rightarrow>
             (if \<not> drained
              then Inr (conn_upd cid (\<lambda>c. c\<lparr>wbuff := wb\<rparr>) e, script, effs)
              else
                (let wb = wb\<lparr>p_in := base wb\<rparr>;
                     wb = wb\<lparr>p_out := p_in wb\<rparr>;
                     wb = wb\<lparr>full := False\<rparr>;
                     e = conn_upd cid (\<lambda>c. c\<lparr>wbuff := wb\<rparr>) e;
                     e = conn_upd cid (\<lambda>c. c\<lparr>qf := qps_disable_modes (qf c) qps_write_mnum\<rparr>) e
                 in if notification_pending (conn_heap e cid)
                    then Inr (e, script, effs @ [Fsm_event bgp_fsm_Sent_NOTIFICATION_message])
                    else (case bgp_connection_queue_add e cid of
                            Inl x \<Rightarrow> Inl x
                          | Inr e \<Rightarrow> Inr (e, script, effs)))))"

section \<open>Reading from a connection\<close>

text \<open>
  The receiving side of the socket: the bytes that have arrived and were not read yet,
  and what a read finds once there are none.
\<close>

datatype read_end = Would_block | End_of_file | Read_error int

record rsock =
  rbuf :: "byte list"
  rend :: read_end

text \<open>
  Modelled from the spec: \<open>stream_read_unblock\<close> of lib/stream.c, which is not among
  the sources: a read of up to \<open>want\<close> bytes into the stream without blocking. It
  returns the number of bytes read (0 when the socket would block, and at once, with no
  system call, when \<open>want\<close> is 0), \<open>-1\<close> with \<open>errno\<close> on an error and \<open>-2\<close> at the
  end of the file. The result is the value returned, \<open>errno\<close>, the stream and the socket.
\<close>

definition stream_read_unblock :: "stream \<Rightarrow> rsock \<Rightarrow> nat \<Rightarrow> int \<times> int \<times> stream \<times> rsock" where
  "stream_read_unblock s sock want =
     (if want = 0 then (0, 0, s, sock)
      else if rbuf sock \<noteq> [] then
        (int (min want (length (rbuf sock))), 0,
         s\<lparr>sdata := sdata s @ take want (rbuf sock)\<rparr>,
         sock\<lparr>rbuf := drop want (rbuf sock)\<rparr>)
      else
        (case rend sock of
           Would_block \<Rightarrow> (0, 0, s, sock)
         | End_of_file \<Rightarrow> (- 2, 0, s, sock)
         | Read_error e \<Rightarrow> (- 1, e, s, sock)))"

text \<open>Modelled from the spec: the length field of a message header, two bytes in
  network byte order after the 16 bytes of marker.\<close>

definition hdr_length :: "byte list \<Rightarrow> int" where
  "hdr_length bs = int (unat (bs ! 16)) * 256 + int (unat (bs ! 17))"

text \<open>Modelled from the spec: the type field of a message header, the byte after the
  length.\<close>

definition hdr_type :: "byte list \<Rightarrow> nat" where
  "hdr_type bs = unat (bs ! 18)"

text \<open>Modelled from the spec: the checks on a message header. The marker is 16 bytes
  of \<open>0xFF\<close>, the length lies between \<open>BGP_MH_HEAD_L\<close> and \<open>BGP_MAX_MSG_L\<close> and
  the type is OPEN (1), UPDATE (2), NOTIFICATION (3) or KEEPALIVE (4). Fewer bytes than a
  header are no header.\<close>

definition hdr_ok :: "byte list \<Rightarrow> bool" where
  "hdr_ok bs =
     (19 \<le> length bs \<and> take 16 bs = replicate 16 (255 :: byte) \<and>
      BGP_MH_HEAD_L \<le> hdr_length bs \<and> hdr_length bs \<le> BGP_MAX_MSG_L \<and>
      1 \<le> hdr_type bs \<and> hdr_type bs \<le> 4)"

text \<open>Modelled from the spec: \<open>bgp_msg_check_header\<close>, which is not among the
  sources. For a header that passes the checks it returns the balance of the message,
  its length less the header; otherwise it raises the FSM's header error and returns a
  negative value.\<close>

definition bgp_msg_check_header :: "stream \<Rightarrow> int \<times> effect list" where
  "bgp_msg_check_header s =
     (if hdr_ok (sdata s) then (hdr_length (sdata s) - BGP_MH_HEAD_L, [])
      else (- 1, [Fsm_header_error]))"

text \<open>Modelled from the spec: \<open>bgp_msg_dispatch\<close>, which is not among the sources,
  hands the message in the ibuf to the FSM.\<close>

definition bgp_msg_dispatch :: "bgp_connection \<Rightarrow> effect list" where
  "bgp_msg_dispatch connection = [Msg_dispatch (sdata (ibuf connection))]"

text \<open>
  The \<open>while (1)\<close> loop of \<open>bgp_connection_read_action\<close>, entered with \<open>want\<close>. It
  ends by \<open>break\<close> with a complete message in the ibuf (\<open>True\<close>) or by one of its
  \<open>return\<close>s (\<open>False\<close>).
\<close>

function read_action_loop ::
  "bgp_connection \<Rightarrow> rsock \<Rightarrow> int \<Rightarrow> effect list \<Rightarrow>
     bgp_connection \<times> rsock \<times> effect list \<times> bool" where
  "read_action_loop connection sock want effs =
     (case stream_read_unblock (ibuf connection) sock (size_t_of want) of
        (ret, errno, ib, sock) \<Rightarrow>
          (let connection = connection\<lparr>ibuf := ib\<rparr> in
           if ret \<ge> 0 then
             (let want = want - ret in
              if want \<noteq> 0 then (connection\<lparr>read_pending := want\<rparr>, sock, effs, False)
              else if \<not> read_header connection then (connection, sock, effs, True)
              else
                (let connection = connection\<lparr>read_header := False\<rparr>;
                     want = fst (bgp_msg_check_header (ibuf connection));
                     effs = effs @ snd (bgp_msg_check_header (ibuf connection))
                 in if want < 0 then (connection, sock, effs, False)
                    else read_action_loop connection sock want effs))
           else (connection, sock, effs @ [Fsm_io_error (if ret = - 1 then errno else 0)], False)))"
  by pat_completeness auto
termination
  by (relation "measure (\<lambda>(connection, sock, want, effs). if read_header connection then 1 else 0)")
    auto

declare read_action_loop.simps [simp del]

text \<open>\<open>bgp_connection_read_action\<close>, reading the socket \<open>sock\<close> of the connection.\<close>

definition bgp_connection_read_action ::
  "bgp_connection \<Rightarrow> rsock \<Rightarrow> bgp_connection \<times> rsock \<times> effect list" where
  "bgp_connection_read_action connection sock =
     (let want = read_pending connection;
          connection = (if want = 0
                        then connection\<lparr>ibuf := stream_reset (ibuf connection), read_header := True\<rparr>
                        else connection);
          want = (if want = 0 then BGP_MH_HEAD_L else want)
      in case read_action_loop connection sock want [] of
           (connection, sock, effs, complete) \<Rightarrow>
             (if complete
              then (connection\<lparr>read_pending := 0\<rparr>, sock, effs @ bgp_msg_dispatch connection)
              else (connection, sock, effs)))"

section \<open>Processing the connection queue\<close>

text \<open>
  Modelled from the spec: \<open>bgp_connection_reset\<close>, which is not among the sources: it
  frees the socket and timer resources of the connection, as closing it does, and
  removes it from the connection queue.
\<close>

definition bgp_connection_reset :: "engine \<Rightarrow> nat \<Rightarrow> error + engine \<times> effect list" where
  "bgp_connection_reset e cid =
     (case bgp_connection_close (conn_heap e cid) of
        (connection, effs) \<Rightarrow>
          (case bgp_connection_queue_del (conn_upd cid (\<lambda>c. connection) e) cid of
             Inl x \<Rightarrow> Inl x
           | Inr e \<Rightarrow> Inr (e, effs)))"

text \<open>
  \<open>bgp_connection_queue_process\<close>: the \<open>while (bgp_connection_queue != NULL)\<close> loop,
  one call for each pass. The loop has no bound, so the function is partial: \<open>None\<close>
  is a run that never leaves the loop. \<open>effs\<close> collects what the passes so far asked
  of the kernel.
\<close>

partial_function (option) bgp_connection_queue_process ::
  "engine \<Rightarrow> effect list \<Rightarrow> (error + engine \<times> effect list) option" where
  "bgp_connection_queue_process e effs =
     (case bgp_connection_queue e of
        None \<Rightarrow> Some (Inr (e, effs))
      | Some cid \<Rightarrow>
          (if state (conn_heap e cid) = bgp_fsm_Stopping
           then (case bgp_connection_reset
                        (e\<lparr>bgp_connection_queue := next_conn (conn_heap e cid)\<rparr>) cid of
                   Inl x \<Rightarrow> Some (Inl x)
                 | Inr (e', effs') \<Rightarrow> bgp_connection_queue_process e' (effs @ effs'))
           else bgp_connection_queue_process
                  (e\<lparr>bgp_connection_queue := next_conn (conn_heap e cid)\<rparr>) effs))"

section \<open>Concrete engines, connections and buffers\<close>

text \<open>
  A session whose two connections raced: the connection at address 1 is its primary, the
  one at address 2 its secondary, which negotiated a hold time of 90 and a keepalive of 30
  and survives the collision.
\<close>

definition promo_session :: bgp_session where
  "promo_session =
     \<lparr>connections = (\<lambda>ord. case ord of bgp_connection_primary \<Rightarrow> Some 1
                               | bgp_connection_secondary \<Rightarrow> Some 2),
      s_host = ''peer'', s_hold_timer_interval = 180, s_keepalive_timer_interval = 60,
      s_su_local = None, s_su_remote = None, s_open_recv = None, accept = False, s_log = 0\<rparr>"

definition promo_survivor :: bgp_connection where
  "promo_survivor =
     zero_connection\<lparr>session := Some 0, ordinal := bgp_connection_secondary, accepted := True,
       state := bgp_fsm_OpenConfirm, su_local := Some 10, su_remote := Some 20,
       hold_timer_interval := 90, keepalive_timer_interval := 30,
       host := ''peer(secondary)'', open_recv := Some 7\<rparr>"

definition promo_engine :: engine where
  "promo_engine =
     \<lparr>conn_heap = (\<lambda>a. if a = 2 then promo_survivor else zero_connection),
      sess_heap = (\<lambda>a. promo_session), bgp_connection_queue = None\<rparr>"

text \<open>A KEEPALIVE message: the marker, length 19, type 4.\<close>

definition keepalive_msg :: "byte list" where
  "keepalive_msg = replicate 16 255 @ [0, 19, 4]"

text \<open>
  An engine with one session and no connection yet, and the engine after
  \<open>bgp_connection_init_new\<close> has made the session's primary connection at address 1
  and \<open>bgp_connection_open\<close> has given it the fd 7.
\<close>

definition lone_session :: bgp_session where
  "lone_session =
     \<lparr>connections = (\<lambda>ord. None),
      s_host = ''peer'', s_hold_timer_interval = 180, s_keepalive_timer_interval = 60,
      s_su_local = None, s_su_remote = None, s_open_recv = None, accept = True, s_log = 0\<rparr>"

definition empty_engine :: engine where
  "empty_engine =
     \<lparr>conn_heap = (\<lambda>a. zero_connection), sess_heap = (\<lambda>a. lone_session),
      bgp_connection_queue = None\<rparr>"

definition opened_engine :: engine where
  "opened_engine =
     (case bgp_connection_init_new empty_engine 1 0 bgp_connection_primary of
        Inl x \<Rightarrow> empty_engine
      | Inr e \<Rightarrow> (case bgp_connection_open e 1 7 of Inl x \<Rightarrow> empty_engine | Inr e \<Rightarrow> e))"

definition opened_connection :: bgp_connection where
  "opened_connection = conn_heap opened_engine 1"

text \<open>
  The opened connection later on: its write buffer, allocated at address 4096 with the
  40960 bytes of \<open>bgp_wbuff_size\<close>, holds nine messages of 4096 bytes of which nothing
  went out yet, and the FSM has put a KEEPALIVE in the obuf.
\<close>

definition staged_connection :: bgp_connection where
  "staged_connection =
     opened_connection\<lparr>
       wbuff := \<lparr>full = False, p_in = 40960, p_out = 4096, base = 4096, limit = 45056\<rparr>,
       qf := (qf opened_connection)\<lparr>write_mode := True\<rparr>,
       obuf := (obuf opened_connection)\<lparr>sdata := keepalive_msg\<rparr>\<rparr>"

text \<open>The opened connection with one KEEPALIVE of 19 bytes waiting in its write buffer
  and write readiness enabled.\<close>

definition pending_engine :: engine where
  "pending_engine =
     conn_upd 1 (\<lambda>c. c\<lparr>
       wbuff := \<lparr>full = False, p_in = 4115, p_out = 4096, base = 4096, limit = 45056\<rparr>,
       qf := (qf c)\<lparr>write_mode := True\<rparr>\<rparr>) opened_engine"

text \<open>The opened connection, now Established, alone on the connection queue (linked to
  itself) with an empty pending queue.\<close>

definition idle_engine :: engine where
  "idle_engine =
     (conn_upd 1 (\<lambda>c. c\<lparr>state := bgp_fsm_Established, next_conn := Some 1, prev_conn := Some 1\<rparr>)
        opened_engine)\<lparr>bgp_connection_queue := Some 1\<rparr>"

section \<open>Whole messages\<close>

text \<open>
  A whole BGP message, as a list of bytes: at least a header and at most
  \<open>BGP_MAX_MSG_L\<close> long, with its own length in the length field of its header (bytes
  16 and 17, network byte order).
\<close>

definition msg_mlen :: "byte list \<Rightarrow> nat" where
  "msg_mlen bs = unat (bs ! 16) * 256 + unat (bs ! 17)"

definition whole_msg :: "byte list \<Rightarrow> bool" where
  "whole_msg bs = (nat BGP_MH_HEAD_L \<le> length bs \<and> length bs \<le> nat BGP_MAX_MSG_L \<and> msg_mlen bs = length bs)"


text \<open>
  Scenario S5: three whole messages of 100, 200 and 300 bytes in a write buffer allocated
  at address 4096, of which the first 150 bytes went out: \<open>p_out\<close> stands 50 bytes into
  the second message. Two messages wait on the pending queue.
\<close>

definition msg100 :: "byte list" where
  "msg100 = replicate 16 255 @ [0, 100, 2] @ replicate 81 1"

definition msg200 :: "byte list" where
  "msg200 = replicate 16 255 @ [0, 200, 2] @ replicate 181 2"

definition msg300 :: "byte list" where
  "msg300 = replicate 16 255 @ [1, 44, 2] @ replicate 281 3"

definition s5_mem :: mem where
  "s5_mem = store_bytes (\<lambda>a. 0) 4096 (msg100 @ msg200 @ msg300)"

definition s5_connection :: bgp_connection where
  "s5_connection =
     opened_connection\<lparr>
       wbuff := \<lparr>full = False, p_in = 4696, p_out = 4246, base = 4096, limit = 45056\<rparr>,
       qf := (qf opened_connection)\<lparr>write_mode := True\<rparr>,
       pending_queue := Some [11, 12]\<rparr>"

section \<open>Streams of messages arriving at the read action\<close>

text \<open>
  A well-formed message, as the bytes on the wire: its header passes the header check and
  its length field is its length.
\<close>

definition wf_msg :: "byte list \<Rightarrow> bool" where
  "wf_msg bs = (hdr_ok bs \<and> hdr_length bs = int (length bs))"

text \<open>
  The selector and the socket. \<open>selector_calls\<close> is the selector at work on a
  readable socket: it calls \<open>bgp_connection_read_action\<close> as long as bytes are unread,
  and for each call records what the FSM was sent and \<open>read_pending\<close> on return. Its
  first argument bounds the number of calls. \<open>deliver\<close> lets the chunks of a byte
  stream arrive at the socket one after the other, the selector running after each
  arrival with one call allowed for each byte then unread.
\<close>

fun selector_calls ::
  "nat \<Rightarrow> bgp_connection \<Rightarrow> rsock \<Rightarrow> bgp_connection \<times> rsock \<times> (effect list \<times> int) list" where
  "selector_calls 0 c sock = (c, sock, [])"
| "selector_calls (Suc n) c sock =
     (if rbuf sock = [] then (c, sock, [])
      else
        (case bgp_connection_read_action c sock of
           (c', sock', effs) \<Rightarrow>
             (case selector_calls n c' sock' of
                (c'', sock'', tr) \<Rightarrow> (c'', sock'', (effs, read_pending c') # tr))))"

fun deliver ::
  "bgp_connection \<Rightarrow> rsock \<Rightarrow> byte list list \<Rightarrow> bgp_connection \<times> rsock \<times> (effect list \<times> int) list" where
  "deliver c sock [] = (c, sock, [])"
| "deliver c sock (chunk # chunks) =
     (case selector_calls (length (rbuf sock @ chunk)) c (sock\<lparr>rbuf := rbuf sock @ chunk\<rparr>) of
        (c', sock', tr) \<Rightarrow>
          (case deliver c' sock' chunks of
             (c'', sock'', tr') \<Rightarrow> (c'', sock'', tr @ tr')))"

text \<open>
  Where the framer is between two calls of the read action, for \<open>inp\<close> the bytes not
  yet read and \<open>rest\<close> the messages not yet dispatched: between messages, inside a
  header, or inside the body of the first message of \<open>rest\<close>.
\<close>

definition framer_inv :: "bgp_connection \<Rightarrow> byte list \<Rightarrow> byte list list \<Rightarrow> bool" where
  "framer_inv c inp rest =
     ((read_pending c = 0 \<and> inp = concat rest) \<or>
      (read_pending c \<noteq> 0 \<and> read_header c \<and> length (sdata (ibuf c)) < 19 \<and>
       read_pending c = 19 - int (length (sdata (ibuf c))) \<and>
       sdata (ibuf c) @ inp = concat rest) \<or>
      (read_pending c \<noteq> 0 \<and> \<not> read_header c \<and>
       (\<exists>m rest'. rest = m # rest' \<and> 19 \<le> length (sdata (ibuf c)) \<and>
          length (sdata (ibuf c)) < length m \<and>
          read_pending c = int (length m) - int (length (sdata (ibuf c))) \<and>
          sdata (ibuf c) @ inp = concat rest)))"

text \<open>Scenario S3: a KEEPALIVE arrives in chunks of 10, 8 and 1 bytes at a socket with
  nothing to read.\<close>

definition s3_chunks :: "byte list list" where
  "s3_chunks = [replicate 10 255, replicate 6 255 @ [0, 19], [4]]"

definition quiet_socket :: rsock where
  "quiet_socket = \<lparr>rbuf = [], rend = Would_block\<rparr>"

section \<open>Properties\<close>

subsection \<open>Siblings and promotion\<close>

lemma ordinal_xor1_simps:
  "ordinal_xor1 bgp_connection_primary = bgp_connection_secondary"
  "ordinal_xor1 bgp_connection_secondary = bgp_connection_primary"
  by (simp_all add: ordinal_xor1_def ordinal_of_def)

text \<open>
  C10: \<open>bgp_connection_get_sibling\<close> returns the null pointer, and does not fail, for a
  connection whose session pointer is null. For a connection with a session it returns
  the slot \<open>connections[ordinal ^ 1]\<close> of that session: the secondary slot for a
  primary connection and the primary slot for a secondary one, whatever the slot holds
  (it may be null).
\<close>

theorem get_sibling_other_slot:
  "(session (conn_heap e cid) = None \<longrightarrow> bgp_connection_get_sibling e cid = None) \<and>
   (\<forall>sid. session (conn_heap e cid) = Some sid \<longrightarrow>
      (ordinal (conn_heap e cid) = bgp_connection_primary \<longrightarrow>
         bgp_connection_get_sibling e cid = connections (sess_heap e sid) bgp_connection_secondary) \<and>
      (ordinal (conn_heap e cid) = bgp_connection_secondary \<longrightarrow>
         bgp_connection_get_sibling e cid = connections (sess_heap e sid) bgp_connection_primary))"
  by (simp add: bgp_connection_get_sibling_def ordinal_xor1_simps)

theorem get_sibling_other_slot_witness:
  "bgp_connection_get_sibling promo_engine 2 = Some 1 \<and>
   bgp_connection_get_sibling promo_engine 5 = None"
proof -
  have a: "session (conn_heap promo_engine 2) = Some 0"
    and b: "ordinal (conn_heap promo_engine 2) = bgp_connection_secondary"
    and c: "session (conn_heap promo_engine 5) = None"
    by (simp_all add: promo_engine_def promo_survivor_def zero_connection_def)
  have "bgp_connection_get_sibling promo_engine 2 =
        connections (sess_heap promo_engine 0) bgp_connection_primary"
    using get_sibling_other_slot [of promo_engine 2] a b by simp
  moreover have "bgp_connection_get_sibling promo_engine 5 = None"
    using get_sibling_other_slot [of promo_engine 5] c by simp
  ultimately show ?thesis
    by (simp add: promo_engine_def promo_session_def)
qed

text \<open>
  What \<open>bgp_connection_make_primary\<close> does for a connection with a session: the
  ordinal, the secondary slot, the open state, the endpoints, the hold time and the host
  are as the source's comment says; the keepalive time of the session is the one it had.
\<close>

lemma make_primary_effect:
  assumes "session (conn_heap e cid) = Some sid"
  shows "\<exists>e'. bgp_connection_make_primary e cid = Inr e' \<and>
     ordinal (conn_heap e' cid) = bgp_connection_primary \<and>
     connections (sess_heap e' sid) bgp_connection_secondary = None \<and>
     s_open_recv (sess_heap e' sid) = open_recv (conn_heap e cid) \<and>
     s_su_local (sess_heap e' sid) = su_local (conn_heap e cid) \<and>
     s_su_remote (sess_heap e' sid) = su_remote (conn_heap e cid) \<and>
     s_hold_timer_interval (sess_heap e' sid) = hold_timer_interval (conn_heap e cid) \<and>
     s_keepalive_timer_interval (sess_heap e' sid) = s_keepalive_timer_interval (sess_heap e sid) \<and>
     open_recv (conn_heap e' cid) = None \<and> su_local (conn_heap e' cid) = None \<and>
     su_remote (conn_heap e' cid) = None \<and>
     host (conn_heap e' cid) = s_host (sess_heap e sid)"
  using assms
  by (simp add: bgp_connection_make_primary_def bgp_connection_init_host_def Let_def)

text \<open>
  C1: after \<open>bgp_connection_make_primary\<close> the keepalive time of the session should be
  the one the connection negotiated. The source assigns the session's own field to
  itself: promoting the secondary connection of \<open>promo_engine\<close>, whose keepalive time is
  30, leaves the session at its 60, while the hold time next to it is copied (90).
\<close>

theorem make_primary_keeps_session_keepalive:
  "keepalive_timer_interval (conn_heap promo_engine 2) = 30 \<and>
   (case bgp_connection_make_primary promo_engine 2 of
      Inl x \<Rightarrow> False
    | Inr e \<Rightarrow> s_keepalive_timer_interval (sess_heap e 0) = 60 \<and>
               s_hold_timer_interval (sess_heap e 0) = 90)"
  by (simp add: bgp_connection_make_primary_def promo_engine_def promo_survivor_def
      promo_session_def zero_connection_def bgp_connection_init_host_def Let_def)

subsection \<open>Close\<close>

lemmas close_defs = bgp_connection_close_def qps_remove_file_def qps_file_unset_fd_def
  sockunion_clear_def qtimer_unset_def stream_reset_def mqueue_local_reset_keep_def

text \<open>
  C7: \<open>bgp_connection_close\<close>, for every connection \<open>c\<close>: it takes the qfile off the
  selector and leaves it without fd, shutting the fd down in both directions if there
  was one; it clears both endpoints, unsets both timers, resets ibuf and obuf, zeroes
  \<open>read_pending\<close>, \<open>read_header\<close> and \<open>notification_pending\<close>, sets \<open>p_in\<close> and
  \<open>p_out\<close> of the write buffer to its base with \<open>full\<close> 0, and leaves the pending
  queue empty with its storage. The state, the session link and ordinal, the timers'
  initialisation, the sizes of ibuf and obuf, base and limit of the write buffer, host,
  log, open state, notification and stopped cause are as before. Closing the result
  again returns it unchanged and asks nothing of the kernel.
\<close>

theorem close_resets_and_keeps:
  "(let c' = fst (bgp_connection_close c) in
    snd (bgp_connection_close c) =
      (if fd (qf c) \<noteq> fd_undef then [Sys_shutdown (fd (qf c)) SHUT_RDWR] else []) \<and>
    selected (qf c') = False \<and> fd (qf c') = fd_undef \<and>
    su_local c' = None \<and> su_remote c' = None \<and>
    t_set (hold_timer c') = False \<and> t_set (keepalive_timer c') = False \<and>
    sdata (ibuf c') = [] \<and> getp (ibuf c') = 0 \<and>
    sdata (obuf c') = [] \<and> getp (obuf c') = 0 \<and>
    read_pending c' = 0 \<and> read_header c' = False \<and> notification_pending c' = False \<and>
    p_in (wbuff c') = base (wbuff c) \<and> p_out (wbuff c') = base (wbuff c) \<and>
    full (wbuff c') = False \<and>
    pending_queue c' = Some [] \<and>
    state c' = state c \<and> session c' = session c \<and> ordinal c' = ordinal c \<and>
    t_initialised (hold_timer c') = t_initialised (hold_timer c) \<and>
    t_initialised (keepalive_timer c') = t_initialised (keepalive_timer c) \<and>
    ssize (ibuf c') = ssize (ibuf c) \<and> ssize (obuf c') = ssize (obuf c) \<and>
    base (wbuff c') = base (wbuff c) \<and> limit (wbuff c') = limit (wbuff c) \<and>
    host c' = host c \<and> log c' = log c \<and> open_recv c' = open_recv c \<and>
    notification c' = notification c \<and> stopped c' = stopped c \<and>
    bgp_connection_close c' = (c', []))"
  by (simp add: close_defs Let_def)

subsection \<open>The opened connection\<close>

lemmas init_defs = bgp_connection_init_new_def bgp_connection_open_def empty_engine_def
  lone_session_def zero_connection_def bgp_connection_init_host_def qps_file_init_new_def
  qtimer_init_new_def stream_new_def mqueue_local_init_new_def qps_add_file_def BGP_MAX_MSG_L_def

lemma opened_connection_eq:
  "opened_connection =
     \<lparr>session = Some 0, ordinal = bgp_connection_primary, accepted = False,
      state = bgp_fsm_Initial, next_conn = None, prev_conn = None,
      post = bgp_fsm_null_event, fsm_active = False, stopped = 0, notification = None,
      err = 0, su_local = None, su_remote = None, hold_timer_interval = 180,
      keepalive_timer_interval = 60, read_pending = 0, read_header = False,
      notification_pending = False,
      wbuff = \<lparr>full = False, p_in = NULL, p_out = NULL, base = NULL, limit = NULL\<rparr>,
      qf = \<lparr>fd = 7, selected = True, read_mode = False, write_mode = False\<rparr>,
      hold_timer = \<lparr>t_initialised = True, t_set = False\<rparr>,
      keepalive_timer = \<lparr>t_initialised = True, t_set = False\<rparr>,
      log = 0, host = ''peer(primary)'', ibuf = \<lparr>ssize = 4096, getp = 0, sdata = []\<rparr>,
      obuf = \<lparr>ssize = 4096, getp = 0, sdata = []\<rparr>,
      pending_queue = Some [], open_recv = None\<rparr>"
  by (simp add: opened_connection_def opened_engine_def init_defs Let_def)

lemma opened_engine_facts:
  "conn_heap opened_engine (Suc 0) = opened_connection"
  "bgp_connection_queue opened_engine = None"
  by (simp_all add: opened_connection_def opened_engine_def init_defs Let_def)

subsection \<open>The write buffer\<close>

text \<open>
  C6: \<open>bgp_connection_part_close\<close> should leave the write buffer not full, also for a
  connection whose write buffer was never allocated. For the connection just opened all
  four pointers are null, \<open>limit - p_in\<close> is 0, which is less than \<open>BGP_MAX_MSG_L\<close>,
  so \<open>bgp_write_buffer_full\<close> sets \<open>full\<close> and the source's own \<open>assert(!wb->full)\<close>
  fails.
\<close>

theorem part_close_unallocated_asserts:
  "wbuff opened_connection =
     \<lparr>full = False, p_in = NULL, p_out = NULL, base = NULL, limit = NULL\<rparr> \<and>
   bgp_connection_part_close m opened_connection = Inl Assert_failed"
  by (simp add: opened_connection_eq bgp_connection_part_close_def bgp_write_buffer_full_def
      BGP_MAX_MSG_L_def Let_def qps_file_fd_def fd_undef_def)

text \<open>
  C3: after \<open>bgp_connection_write\<close> the flag \<open>full\<close> should say whether less than
  \<open>BGP_MAX_MSG_L\<close> bytes are left after \<open>p_in\<close>. The staged connection satisfies the
  invariant; the write moves the 19 bytes of the obuf into the write buffer, after which
  4077 bytes are left, and does not touch the flag: the buffer is full and \<open>full\<close> is 0.
\<close>

theorem write_leaves_full_stale:
  "(let wb = wbuff staged_connection in
      base wb \<le> p_out wb \<and> p_out wb \<le> p_in wb \<and> p_in wb \<le> limit wb \<and>
      full wb = bgp_write_buffer_full wb) \<and>
   (case bgp_connection_write a m script staged_connection of
      Inl x \<Rightarrow> False
    | Inr (ret, c', rest) \<Rightarrow>
        limit (wbuff c') - p_in (wbuff c') = 4077 \<and>
        bgp_write_buffer_full (wbuff c') = True \<and> full (wbuff c') = False)"
  by (simp add: staged_connection_def opened_connection_eq bgp_connection_write_def
      bgp_write_buffer_empty_def bgp_write_buffer_full_def stream_transfer_def
      keepalive_msg_def BGP_MAX_MSG_L_def Let_def)

text \<open>
  C4: \<open>bgp_connection_write\<close> on a write buffer that is not empty should return 0
  (written to the buffer, obuf now empty). On the staged connection it moves the obuf to
  the write buffer and returns 1, the value the source documents for obuf and write
  buffer both empty, with the write buffer holding the nine messages and the new one.
\<close>

theorem write_buffered_returns_1:
  "(case bgp_connection_write a m script staged_connection of
      Inl x \<Rightarrow> False
    | Inr (ret, c', rest) \<Rightarrow>
        ret = 1 \<and> bgp_write_buffer_empty (wbuff c') = False \<and>
        p_in (wbuff c') = p_in (wbuff staged_connection) + 19 \<and> sdata (obuf c') = [])"
  by (simp add: staged_connection_def opened_connection_eq bgp_connection_write_def
      bgp_write_buffer_empty_def bgp_write_buffer_full_def stream_transfer_def stream_reset_def
      keepalive_msg_def BGP_MAX_MSG_L_def Let_def)

lemma pending_conn:
  "conn_heap pending_engine 1 = opened_connection\<lparr>
       wbuff := \<lparr>full = False, p_in = 4115, p_out = 4096, base = 4096, limit = 45056\<rparr>,
       qf := (qf opened_connection)\<lparr>write_mode := True\<rparr>\<rparr>"
  by (simp add: pending_engine_def conn_upd_def opened_connection_def)

text \<open>
  C2: \<open>bgp_connection_write_action\<close> should write the 19 bytes between \<open>p_out\<close> and
  \<open>p_in\<close> and, once they are gone, reset the buffer, disable write readiness and put
  the connection on the connection queue. The source computes \<open>have = p_out - p_in\<close>,
  which is \<open>-19\<close>: the first \<open>write\<close> is asked for \<open>2 ^ 64 - 19\<close> bytes. When the
  socket takes 19 bytes, the pending bytes are all out, but \<open>have\<close> is \<open>-38\<close> and the
  loop writes again from \<open>p_in\<close> on; the socket then would block and the function
  returns with the buffer not reset, write readiness still enabled and the connection
  not on the queue.
\<close>

theorem write_action_negative_have:
  "(case bgp_connection_write_action pending_engine 1 [Done 19] of
      Inl x \<Rightarrow> False
    | Inr (e, script, effs) \<Rightarrow>
        effs = [Sys_write 7 4096 18446744073709551597, Sys_write 7 4115 18446744073709551578] \<and>
        wbuff (conn_heap e 1) =
          \<lparr>full = False, p_in = 4115, p_out = 4115, base = 4096, limit = 45056\<rparr> \<and>
        write_mode (qf (conn_heap e 1)) = True \<and>
        bgp_connection_queue e = None)"
  by (simp add: bgp_connection_write_action_def pending_conn opened_connection_eq
     qps_file_fd_def size_t_of_def conn_upd_def Let_def pending_engine_def opened_engine_facts)

subsection \<open>The connection queue\<close>

lemma idle_engine_step:
  "bgp_connection_queue idle_engine = Some 1"
  "state (conn_heap idle_engine (Suc 0)) = bgp_fsm_Established"
  "idle_engine\<lparr>bgp_connection_queue := next_conn (conn_heap idle_engine (Suc 0))\<rparr> = idle_engine"
  by (simp_all add: idle_engine_def conn_upd_def)

text \<open>
  C9: \<open>bgp_connection_queue_process\<close> should end with the queue empty, a connection
  that is not Stopping leaving the queue once its pending queue is empty. The body of
  the source's loop only reaps Stopping connections (the rest of it is a pair of
  \<open>/* ..... */\<close> comments): with one Established connection on the queue, whose
  pending queue is empty, every pass steps from the connection to itself and the loop
  never ends.
\<close>

theorem queue_process_never_returns:
  "state (conn_heap idle_engine 1) = bgp_fsm_Established \<and>
   pending_queue (conn_heap idle_engine 1) = Some [] \<and>
   bgp_connection_queue_process idle_engine [] = None"
proof -
  have stuck: "e \<noteq> idle_engine"
    if run: "bgp_connection_queue_process e effs = Some r" for e effs r
  proof (rule bgp_connection_queue_process.raw_induct
      [where P = "\<lambda>e effs r. e \<noteq> idle_engine", OF _ run], goal_cases)
    case (1 qp e effs r)
    show ?case
    proof
      assume eq: "e = idle_engine"
      from 1(2) have "qp idle_engine effs = Some r"
        unfolding eq by (simp add: idle_engine_step)
      from 1(1) [OF this] show False by simp
    qed
  qed
  have "bgp_connection_queue_process idle_engine [] = None"
  proof (cases "bgp_connection_queue_process idle_engine []")
    case (Some r)
    from stuck [OF this] show ?thesis by simp
  qed simp
  moreover have "pending_queue (conn_heap idle_engine 1) = Some []"
    by (simp add: idle_engine_def conn_upd_def opened_engine_facts opened_connection_eq)
  ultimately show ?thesis by (simp add: idle_engine_step)
qed

subsection \<open>Part close\<close>

lemma length_load [simp]: "length (load m a n) = n"
  by (simp add: load_def)

lemma nth_load [simp]: "i < n \<Longrightarrow> load m a n ! i = m (a + int i)"
  by (simp add: load_def)

lemma load_append: "load m a (n + k) = load m a n @ load m (a + int n) k"
proof (rule nth_equalityI)
  show "length (load m a (n + k)) = length (load m a n @ load m (a + int n) k)"
    by simp
next
  fix i
  assume "i < length (load m a (n + k))"
  then have i: "i < n + k" by simp
  show "load m a (n + k) ! i = (load m a n @ load m (a + int n) k) ! i"
  proof (cases "i < n")
    case True
    with i show ?thesis by (simp add: nth_append)
  next
    case False
    then have "a + int n + int (i - n) = a + int i" by simp
    with False i show ?thesis by (simp add: nth_append)
  qed
qed

lemma load_split:
  assumes "load m a (length xs + length ys) = xs @ ys"
  shows "load m a (length xs) = xs" and "load m (a + int (length xs)) (length ys) = ys"
  using assms by (simp_all add: load_append)

lemma store_bytes_below: "b < a \<Longrightarrow> store_bytes m a bs b = m b"
  by (induction bs arbitrary: m a) auto

lemma store_bytes_nth: "i < length bs \<Longrightarrow> store_bytes m a bs (a + int i) = bs ! i"
proof (induction bs arbitrary: m a i)
  case Nil
  then show ?case by simp
next
  case (Cons b bs)
  show ?case
  proof (cases i)
    case 0
    then show ?thesis by (simp add: store_bytes_below)
  next
    case (Suc j)
    with Cons.prems have j: "j < length bs" by simp
    have "store_bytes m a (b # bs) (a + int i) =
          store_bytes (m(a := b)) (a + 1) bs ((a + 1) + int j)"
      using Suc by (simp add: add.assoc)
    also have "\<dots> = bs ! j"
      using j by (rule Cons.IH)
    finally show ?thesis using Suc by simp
  qed
qed

lemma load_store_bytes: "load (store_bytes m a bs) a (length bs) = bs"
  by (rule nth_equalityI) (simp_all add: store_bytes_nth)

lemma mlen_of_load:
  assumes "load m q (length msg) = msg" "whole_msg msg"
  shows "bgp_msg_get_mlen m q = length msg"
proof -
  from assms(2) have len: "19 \<le> length msg" and ml: "msg_mlen msg = length msg"
    by (simp_all add: whole_msg_def BGP_MH_HEAD_L_def)
  have "msg ! 16 = m (q + 16)" "msg ! 17 = m (q + 17)"
    using nth_load [of 16 "length msg" m q] nth_load [of 17 "length msg" m q] len assms(1)
    by simp_all
  with ml show ?thesis
    by (simp add: bgp_msg_get_mlen_def msg_mlen_def)
qed

lemma part_close_walk_finds:
  assumes "list_all whole_msg (ms1 @ msg # ms2)"
    and "load m q (length (concat (ms1 @ msg # ms2))) = concat (ms1 @ msg # ms2)"
    and "base wb \<le> q"
    and "q + int (length (concat (ms1 @ msg # ms2))) \<le> limit wb"
    and "p_out wb = q + int (length (concat ms1)) + int k"
    and "k < length msg"
    and "p + int mlen = q"
  shows "part_close_walk m wb p mlen = Inr (q + int (length (concat ms1)), length msg)"
  using assms
proof (induction ms1 arbitrary: p mlen q)
  case Nil
  from Nil.prems(1) have w: "whole_msg msg" by simp
  then have len: "19 \<le> length msg" by (simp add: whole_msg_def BGP_MH_HEAD_L_def)
  from Nil.prems(2) have "load m q (length msg) = msg"
    using load_split(1) [of m q msg "concat ms2"] by simp
  then have ml: "bgp_msg_get_mlen m q = length msg"
    using w by (rule mlen_of_load)
  show ?case
    using Nil.prems(3-7) len ml
    by (subst part_close_walk.simps) (simp add: Let_def)
next
  case (Cons x ms1)
  from Cons.prems(1) have w: "whole_msg x" and rest: "list_all whole_msg (ms1 @ msg # ms2)"
    by simp_all
  then have len: "19 \<le> length x" by (simp add: whole_msg_def BGP_MH_HEAD_L_def)
  from Cons.prems(2)
  have lx: "load m q (length x) = x"
    and lr: "load m (q + int (length x)) (length (concat (ms1 @ msg # ms2))) = concat (ms1 @ msg # ms2)"
    using load_split [of m q x "concat (ms1 @ msg # ms2)"] by simp_all
  from lx w have ml: "bgp_msg_get_mlen m q = length x"
    by (rule mlen_of_load)
  have IH: "part_close_walk m wb q (length x) =
            Inr (q + int (length x) + int (length (concat ms1)), length msg)"
    using Cons.prems(3-6)
    by (intro Cons.IH [OF rest lr]) simp_all
  from len have ne: "x \<noteq> []" by auto
  show ?case
    using Cons.prems(3-7) len ml IH ne
    by (subst part_close_walk.simps) (simp add: Let_def)
qed



lemma part_close_after_walk:
  assumes "p_in (wbuff c) \<noteq> p_out (wbuff c)"
    and "part_close_walk m (wbuff c) (base (wbuff c)) 0 = Inr (p, mlen)"
    and "\<not> limit (wbuff c) < p + int mlen"
    and "\<not> limit (wbuff c) - (base (wbuff c) + int (if p = p_out (wbuff c) then 0 else mlen)) < BGP_MAX_MSG_L"
    and "p = p_out (wbuff c) \<or> memcpy m (base (wbuff c)) p mlen = Inr m'"
  shows "\<exists>c' effs.
     bgp_connection_part_close m c =
       Inr (c', if p = p_out (wbuff c) then m else m', effs) \<and>
     pending_queue c' = Some [] \<and>
     wbuff c' = (wbuff c)\<lparr>p_out := base (wbuff c) + (p_out (wbuff c) - p),
                           p_in := base (wbuff c) + int (if p = p_out (wbuff c) then 0 else mlen),
                           full := False\<rparr>"
proof (cases "p = p_out (wbuff c)")
  case True
  with assms show ?thesis
    unfolding bgp_connection_part_close_def
    by (simp add: Let_def mqueue_local_reset_keep_def bgp_write_buffer_full_def)
next
  case False
  with assms show ?thesis
    unfolding bgp_connection_part_close_def
    by (simp add: Let_def mqueue_local_reset_keep_def bgp_write_buffer_full_def)
qed

lemma part_close_after_walk_undefined:
  assumes "p_in (wbuff c) \<noteq> p_out (wbuff c)"
    and "part_close_walk m (wbuff c) (base (wbuff c)) 0 = Inr (p, mlen)"
    and "p \<noteq> p_out (wbuff c)"
    and "\<not> limit (wbuff c) < p + int mlen"
    and "memcpy m (base (wbuff c)) p mlen = Inl x"
  shows "bgp_connection_part_close m c = Inl x"
  using assms unfolding bgp_connection_part_close_def
  by (simp add: Let_def)

text \<open>
  What \<open>bgp_connection_part_close\<close> does wherever its \<open>memcpy\<close> is defined. Let the
  write buffer of a connection be allocated (\<open>bgp_wbuff_size\<close> bytes from its base) and
  hold the whole messages \<open>ms1\<close>, \<open>msg\<close>, \<open>ms2\<close> from its base up to \<open>p_in\<close>, with
  \<open>p_out\<close> standing \<open>k\<close> bytes into \<open>msg\<close>. If \<open>p_out\<close> stands at the start of
  \<open>msg\<close> (\<open>k = 0\<close>) nothing is copied and the buffer is emptied,
  \<open>p_in = p_out = base\<close>. If \<open>msg\<close> starts at least its own length above the base,
  source and destination of the copy are apart, and afterwards \<open>msg\<close> lies at the
  base, \<open>p_out\<close> is \<open>base + k\<close> and \<open>p_in\<close> is \<open>base + length msg\<close>. Either way
  the pending queue is empty and the buffer not full.
\<close>

lemma part_close_keeps_in_flight_apart:
  assumes whole: "list_all whole_msg (ms1 @ msg # ms2)"
    and alloc: "limit (wbuff c) = base (wbuff c) + bgp_wbuff_size"
    and content: "load m (base (wbuff c)) (length (concat (ms1 @ msg # ms2))) = concat (ms1 @ msg # ms2)"
    and p_in: "p_in (wbuff c) = base (wbuff c) + int (length (concat (ms1 @ msg # ms2)))"
    and fits: "p_in (wbuff c) \<le> limit (wbuff c)"
    and p_out: "p_out (wbuff c) = base (wbuff c) + int (length (concat ms1)) + int k"
    and inside: "k < length msg"
    and apart: "k = 0 \<or> length msg \<le> length (concat ms1)"
  shows "\<exists>c' m' effs.
     bgp_connection_part_close m c = Inr (c', m', effs) \<and>
     pending_queue c' = Some [] \<and> full (wbuff c') = False \<and>
     base (wbuff c') = base (wbuff c) \<and> limit (wbuff c') = limit (wbuff c) \<and>
     (if k = 0
      then p_in (wbuff c') = base (wbuff c) \<and> p_out (wbuff c') = base (wbuff c)
      else p_out (wbuff c') = base (wbuff c) + int k \<and>
           p_in (wbuff c') = base (wbuff c) + int (length msg) \<and>
           load m' (base (wbuff c)) (length msg) = msg)"
proof -
  let ?wb = "wbuff c"
  let ?p = "base ?wb + int (length (concat ms1))"
  let ?m' = "store_bytes m (base ?wb) (load m ?p (length msg))"
  from whole have w: "whole_msg msg" by simp
  then have len: "19 \<le> length msg" "length msg \<le> 4096"
    by (simp_all add: whole_msg_def BGP_MH_HEAD_L_def BGP_MAX_MSG_L_def)
  have walk: "part_close_walk m ?wb (base ?wb) 0 = Inr (?p, length msg)"
    using whole content _ _ p_out inside
    by (rule part_close_walk_finds) (use p_in fits in simp_all)
  have ne: "p_in ?wb \<noteq> p_out ?wb"
    using p_in p_out inside by simp
  have src: "load m ?p (length msg) = msg"
  proof -
    from content have "load m ?p (length (concat (msg # ms2))) = concat (msg # ms2)"
      using load_split(2) [of m "base ?wb" "concat ms1" "concat (msg # ms2)"] by simp
    then show ?thesis
      using load_split(1) [of m ?p msg "concat ms2"] by simp
  qed
  have room: "\<not> limit ?wb < ?p + int (length msg)"
    using p_in fits by simp
  have at_start: "?p = p_out ?wb \<longleftrightarrow> k = 0"
    using p_out by simp
  have notfull: "\<not> limit ?wb - (base ?wb + int (if ?p = p_out ?wb then 0 else length msg)) < BGP_MAX_MSG_L"
    using alloc len by (simp add: bgp_wbuff_size_def BGP_MAX_MSG_L_def)
  have defined: "?p = p_out ?wb \<or> memcpy m (base ?wb) ?p (length msg) = Inr ?m'"
    using apart at_start by (auto simp: memcpy_def)
  from part_close_after_walk [OF ne walk room notfull defined]
  obtain c' effs where
    run: "bgp_connection_part_close m c = Inr (c', if ?p = p_out ?wb then m else ?m', effs)"
    and pq: "pending_queue c' = Some []"
    and wb': "wbuff c' = ?wb\<lparr>p_out := base ?wb + (p_out ?wb - ?p),
                p_in := base ?wb + int (if ?p = p_out ?wb then 0 else length msg), full := False\<rparr>"
    by blast
  have copied: "load ?m' (base ?wb) (length msg) = msg"
    using src load_store_bytes [of m "base ?wb" "load m ?p (length msg)"] by simp
  show ?thesis
  proof (cases "k = 0")
    case True
    with run pq wb' at_start p_out show ?thesis by simp
  next
    case False
    with run pq wb' at_start p_out copied show ?thesis by simp
  qed
qed

lemma s5_walk:
  "part_close_walk s5_mem (wbuff s5_connection) (base (wbuff s5_connection)) 0 = Inr (4196, 200)"
proof -
  have lens: "length msg100 = 100" "length msg200 = 200" "length msg300 = 300"
    by (simp_all add: msg100_def msg200_def msg300_def)
  have whole: "list_all whole_msg ([msg100] @ msg200 # [msg300])"
    by (simp add: whole_msg_def msg_mlen_def BGP_MH_HEAD_L_def BGP_MAX_MSG_L_def
        msg100_def msg200_def msg300_def nth_append)
  have wb: "wbuff s5_connection =
      \<lparr>full = False, p_in = 4696, p_out = 4246, base = 4096, limit = 45056\<rparr>"
    by (simp add: s5_connection_def)
  have "load s5_mem 4096 (length (msg100 @ msg200 @ msg300)) = msg100 @ msg200 @ msg300"
    unfolding s5_mem_def by (rule load_store_bytes)
  then have content: "load s5_mem 4096
      (length (concat ([msg100] @ msg200 # [msg300]))) = concat ([msg100] @ msg200 # [msg300])"
    by simp
  have "part_close_walk s5_mem (wbuff s5_connection) 4096 0 =
        Inr (4096 + int (length (concat [msg100])), length msg200)"
    using whole content
    by (rule part_close_walk_finds [where k = 50]) (simp_all add: wb lens)
  then show ?thesis by (simp add: wb lens)
qed

text \<open>
  C5: in scenario S5 \<open>bgp_connection_part_close\<close> should leave the 200-byte message at
  the base, with \<open>p_out = base + 50\<close> and \<open>p_in = base + 200\<close>. The walk finds the
  message at \<open>base + 100\<close> and the source copies it with \<open>memcpy(wb->base, p, mlen)\<close>:
  200 bytes from \<open>base + 100\<close> to \<open>base\<close>, two ranges that share 100 bytes. That
  call is undefined in ISO C, so the run is not defined to end as the claim says. The
  same holds whenever \<open>p_out\<close> stands inside a message that starts less than its own
  length above the base, the first message of the buffer among them.
\<close>

theorem part_close_memcpy_overlaps:
  "part_close_walk s5_mem (wbuff s5_connection) (base (wbuff s5_connection)) 0 = Inr (4196, 200) \<and>
   base (wbuff s5_connection) = 4096 \<and> p_out (wbuff s5_connection) = 4096 + 150 \<and>
   memcpy s5_mem 4096 4196 200 = Inl Memcpy_overlap \<and>
   bgp_connection_part_close s5_mem s5_connection = Inl Memcpy_overlap"
proof -
  have wb: "wbuff s5_connection =
      \<lparr>full = False, p_in = 4696, p_out = 4246, base = 4096, limit = 45056\<rparr>"
    by (simp add: s5_connection_def)
  have cp: "memcpy s5_mem 4096 4196 200 = Inl Memcpy_overlap"
    by (simp add: memcpy_def)
  have "bgp_connection_part_close s5_mem s5_connection = Inl Memcpy_overlap"
    by (rule part_close_after_walk_undefined [OF _ s5_walk]) (simp_all add: wb cp)
  with s5_walk cp show ?thesis by (simp add: wb)
qed

subsection \<open>The read action\<close>

lemma size_t_of_small: "0 \<le> i \<Longrightarrow> i < 2 ^ 64 \<Longrightarrow> size_t_of i = nat i"
  by (simp add: size_t_of_def)

lemma read_unblock_open:
  "rend sock = Would_block \<Longrightarrow>
   stream_read_unblock s sock w =
     (int (min w (length (rbuf sock))), 0, s\<lparr>sdata := sdata s @ take w (rbuf sock)\<rparr>,
      sock\<lparr>rbuf := drop w (rbuf sock)\<rparr>)"
  by (simp add: stream_read_unblock_def)

lemma read_action_loop_open:
  assumes "rend sock = Would_block" "0 \<le> want" "want < 2 ^ 64"
  shows "read_action_loop c sock want effs =
    (let n = min (nat want) (length (rbuf sock));
         c1 = c\<lparr>ibuf := (ibuf c)\<lparr>sdata := sdata (ibuf c) @ take (nat want) (rbuf sock)\<rparr>\<rparr>;
         sock1 = sock\<lparr>rbuf := drop (nat want) (rbuf sock)\<rparr>
     in if int n \<noteq> want then (c1\<lparr>read_pending := want - int n\<rparr>, sock1, effs, False)
        else if \<not> read_header c then (c1, sock1, effs, True)
        else (let c2 = c1\<lparr>read_header := False\<rparr> in
              if fst (bgp_msg_check_header (ibuf c2)) < 0
              then (c2, sock1, effs @ snd (bgp_msg_check_header (ibuf c2)), False)
              else read_action_loop c2 sock1 (fst (bgp_msg_check_header (ibuf c2)))
                     (effs @ snd (bgp_msg_check_header (ibuf c2)))))"
  using assms
  by (subst read_action_loop.simps) (simp add: read_unblock_open size_t_of_small Let_def)


lemma hdr_take:
  assumes "19 \<le> length m"
  shows "hdr_ok (take 19 m) = hdr_ok m" and "hdr_length (take 19 m) = hdr_length m"
  using assms by (simp_all add: hdr_ok_def hdr_length_def hdr_type_def min_def)

lemma wf_msg_length: "wf_msg m \<Longrightarrow> 19 \<le> length m \<and> length m \<le> 4096"
  by (simp add: wf_msg_def hdr_ok_def BGP_MAX_MSG_L_def)

lemma split_at_boundary:
  assumes "xs @ ys = m @ t" and "length xs + k = length m" and "k \<le> length ys"
  shows "xs @ take k ys = m" and "drop k ys = t"
proof -
  from assms(2) have k: "length m - length xs = k" by simp
  from assms(2) have le: "length xs \<le> length m" by simp
  have "take (length m) (xs @ ys) = xs @ take k ys"
    using le by (simp add: k)
  with assms(1) show "xs @ take k ys = m" by simp
  have "drop (length m) (xs @ ys) = drop k ys"
    using le by (simp add: k)
  with assms(1) show "drop k ys = t" by simp
qed

lemma body_phase:
  assumes nh: "\<not> read_header c"
    and lo: "length (sdata (ibuf c)) \<le> length m"
    and big: "length m \<le> 4096"
    and inp: "sdata (ibuf c) @ rbuf sock @ fut = m @ t"
    and op: "rend sock = Would_block"
  shows "\<exists>c' sock'. rend sock' = Would_block \<and> \<not> read_header c' \<and>
      ((read_action_loop c sock (int (length m) - int (length (sdata (ibuf c)))) effs =
          (c', sock', effs, True) \<and>
        sdata (ibuf c') = m \<and> rbuf sock' @ fut = t) \<or>
       (read_action_loop c sock (int (length m) - int (length (sdata (ibuf c)))) effs =
          (c', sock', effs, False) \<and>
        length (sdata (ibuf c)) \<le> length (sdata (ibuf c')) \<and>
        length (sdata (ibuf c')) < length m \<and>
        read_pending c' = int (length m) - int (length (sdata (ibuf c'))) \<and>
        sdata (ibuf c') @ rbuf sock' @ fut = m @ t))"
proof -
  let ?want = "int (length m) - int (length (sdata (ibuf c)))"
  let ?k = "length m - length (sdata (ibuf c))"
  from lo have k: "nat ?want = ?k" by simp
  from lo big have w: "0 \<le> ?want" "?want < 2 ^ 64" by simp_all
  note unf = read_action_loop_open [OF op w, of c effs]
  show ?thesis
  proof (cases "?k \<le> length (rbuf sock)")
    case True
    have len: "length (sdata (ibuf c)) + ?k = length m" using lo by simp
    from True have k2: "?k \<le> length (rbuf sock @ fut)" by simp
    from split_at_boundary [OF _ len k2] inp True
    have "sdata (ibuf c) @ take ?k (rbuf sock) = m" "drop ?k (rbuf sock) @ fut = t"
      by simp_all
    with True nh op lo show ?thesis
      unfolding unf k by (simp add: Let_def min_def)
  next
    case False
    then have "int (length (rbuf sock)) \<noteq> ?want"
      and "length (sdata (ibuf c)) + length (rbuf sock) < length m"
      using lo by simp_all
    with False nh op lo inp show ?thesis
      unfolding unf k by (simp add: Let_def min_def)
  qed
qed


lemma first_message:
  assumes wf: "list_all wf_msg rest" and inp: "hd19 @ tl19 = concat rest" and len: "length hd19 = 19"
  shows "\<exists>m rest'. rest = m # rest' \<and> wf_msg m \<and> list_all wf_msg rest' \<and> hd19 = take 19 m"
proof (cases rest)
  case Nil
  with inp len show ?thesis by simp
next
  case (Cons m rest')
  with wf have m: "wf_msg m" and r: "list_all wf_msg rest'" by simp_all
  from m have "19 \<le> length m" by (simp add: wf_msg_length)
  moreover from inp Cons have "take 19 (hd19 @ tl19) = take 19 (m @ concat rest')" by simp
  ultimately have "hd19 = take 19 m" using len by simp
  with Cons m r show ?thesis by simp
qed

lemma header_phase:
  assumes wf: "list_all wf_msg rest"
    and hd: "read_header c"
    and part: "length (sdata (ibuf c)) < 19"
    and inp: "sdata (ibuf c) @ rbuf sock @ fut = concat rest"
    and op: "rend sock = Would_block"
  shows "\<exists>c' sock'. rend sock' = Would_block \<and>
      ((read_action_loop c sock (19 - int (length (sdata (ibuf c)))) [] = (c', sock', [], True) \<and>
        (\<exists>m rest'. rest = m # rest' \<and> sdata (ibuf c') = m \<and> rbuf sock' @ fut = concat rest')) \<or>
       (read_action_loop c sock (19 - int (length (sdata (ibuf c)))) [] = (c', sock', [], False) \<and>
        read_pending c' \<noteq> 0 \<and> framer_inv c' (rbuf sock' @ fut) rest))"
proof -
  let ?want = "19 - int (length (sdata (ibuf c)))"
  let ?k = "19 - length (sdata (ibuf c))"
  from part have k: "nat ?want = ?k" by simp
  from part have w: "0 \<le> ?want" "?want < 2 ^ 64" by simp_all
  note unf = read_action_loop_open [OF op w, of c "[]"]
  show ?thesis
  proof (cases "?k \<le> length (rbuf sock)")
    case False
    then have "int (length (rbuf sock)) \<noteq> ?want"
      and "length (sdata (ibuf c)) + length (rbuf sock) < 19"
      using part by simp_all
    with False hd op part inp show ?thesis
      unfolding unf k by (simp add: Let_def min_def framer_inv_def)
  next
    case True
    let ?hdr = "sdata (ibuf c) @ take ?k (rbuf sock)"
    let ?c2 = "c\<lparr>ibuf := (ibuf c)\<lparr>sdata := ?hdr\<rparr>, read_header := False\<rparr>"
    let ?sock1 = "sock\<lparr>rbuf := drop ?k (rbuf sock)\<rparr>"
    from True part have hlen: "length ?hdr = 19" by simp
    have "?hdr @ (drop ?k (rbuf sock) @ fut) =
          sdata (ibuf c) @ (take ?k (rbuf sock) @ drop ?k (rbuf sock)) @ fut"
      by simp
    also have "\<dots> = concat rest"
      using inp by (simp only: append_take_drop_id)
    finally have whole: "?hdr @ (drop ?k (rbuf sock) @ fut) = concat rest" .
    from first_message [OF wf whole hlen] obtain m rest' where
      rest: "rest = m # rest'" and m: "wf_msg m" and hdr: "?hdr = take 19 m"
      by blast
    from m have mlen: "19 \<le> length m" "length m \<le> 4096" by (simp_all add: wf_msg_length)
    from m mlen have chk:
      "bgp_msg_check_header ((ibuf c)\<lparr>sdata := ?hdr\<rparr>) = (int (length m) - 19, [])"
      by (simp add: bgp_msg_check_header_def hdr hdr_take wf_msg_def BGP_MH_HEAD_L_def)
    have step: "read_action_loop c sock ?want [] =
                read_action_loop ?c2 ?sock1 (int (length m) - 19) []"
      using True hd part mlen unfolding unf k
      by (simp add: Let_def min_def chk)
    have inp2: "sdata (ibuf ?c2) @ rbuf ?sock1 @ fut = m @ concat rest'"
      using whole rest by simp
    have lo2: "length (sdata (ibuf ?c2)) \<le> length m"
      using hlen mlen by simp
    from body_phase [of ?c2 m ?sock1 fut "concat rest'" "[]", OF _ lo2 mlen(2) inp2]
    obtain c' sock' where
      op': "rend sock' = Would_block" and nh': "\<not> read_header c'" and
      alt: "(read_action_loop ?c2 ?sock1 (int (length m) - int (length (sdata (ibuf ?c2)))) [] =
              (c', sock', [], True) \<and> sdata (ibuf c') = m \<and> rbuf sock' @ fut = concat rest') \<or>
            (read_action_loop ?c2 ?sock1 (int (length m) - int (length (sdata (ibuf ?c2)))) [] =
              (c', sock', [], False) \<and>
             length (sdata (ibuf ?c2)) \<le> length (sdata (ibuf c')) \<and>
             length (sdata (ibuf c')) < length m \<and>
             read_pending c' = int (length m) - int (length (sdata (ibuf c'))) \<and>
             sdata (ibuf c') @ rbuf sock' @ fut = m @ concat rest')"
      using op by auto
    have l2: "int (length (sdata (ibuf ?c2))) = 19" using hlen by simp
    from alt show ?thesis
    proof
      assume "read_action_loop ?c2 ?sock1 (int (length m) - int (length (sdata (ibuf ?c2)))) [] =
              (c', sock', [], True) \<and> sdata (ibuf c') = m \<and> rbuf sock' @ fut = concat rest'"
      with step op' rest show ?thesis
        unfolding l2 by auto
    next
      assume a: "read_action_loop ?c2 ?sock1 (int (length m) - int (length (sdata (ibuf ?c2)))) [] =
              (c', sock', [], False) \<and>
             length (sdata (ibuf ?c2)) \<le> length (sdata (ibuf c')) \<and>
             length (sdata (ibuf c')) < length m \<and>
             read_pending c' = int (length m) - int (length (sdata (ibuf c'))) \<and>
             sdata (ibuf c') @ rbuf sock' @ fut = m @ concat rest'"
      then have "19 \<le> length (sdata (ibuf c'))" using hlen by simp
      with a nh' rest have "framer_inv c' (rbuf sock' @ fut) rest" "read_pending c' \<noteq> 0"
        by (simp_all add: framer_inv_def)
      with a step op' show ?thesis
        unfolding l2 by auto
    qed
  qed
qed


lemma read_action_of_loop:
  "bgp_connection_read_action c sock =
     (let c1 = (if read_pending c = 0
                then c\<lparr>ibuf := stream_reset (ibuf c), read_header := True\<rparr> else c);
          want = (if read_pending c = 0 then BGP_MH_HEAD_L else read_pending c)
      in case read_action_loop c1 sock want [] of
           (c', sock', effs, complete) \<Rightarrow>
             if complete then (c'\<lparr>read_pending := 0\<rparr>, sock', effs @ [Msg_dispatch (sdata (ibuf c'))])
             else (c', sock', effs))"
  by (simp add: bgp_connection_read_action_def bgp_msg_dispatch_def Let_def split: prod.splits)

lemma after_header_phase:
  assumes wf: "list_all wf_msg rest"
    and hd: "read_header c1"
    and part: "length (sdata (ibuf c1)) < 19"
    and inp: "sdata (ibuf c1) @ rbuf sock @ fut = concat rest"
    and op: "rend sock = Would_block"
  shows "\<exists>c' sock' d rest'.
     (case read_action_loop c1 sock (19 - int (length (sdata (ibuf c1)))) [] of
        (c', sock', effs, complete) \<Rightarrow>
          if complete then (c'\<lparr>read_pending := 0\<rparr>, sock', effs @ [Msg_dispatch (sdata (ibuf c'))])
          else (c', sock', effs)) = (c', sock', map Msg_dispatch d) \<and>
     rest = d @ rest' \<and> framer_inv c' (rbuf sock' @ fut) rest' \<and>
     rend sock' = Would_block \<and> (d \<noteq> [] \<longrightarrow> read_pending c' = 0)"
proof -
  from header_phase [OF wf hd part inp op] obtain c' sock' where
    op': "rend sock' = Would_block" and
    alt: "(read_action_loop c1 sock (19 - int (length (sdata (ibuf c1)))) [] = (c', sock', [], True) \<and>
           (\<exists>m rest'. rest = m # rest' \<and> sdata (ibuf c') = m \<and> rbuf sock' @ fut = concat rest')) \<or>
          (read_action_loop c1 sock (19 - int (length (sdata (ibuf c1)))) [] = (c', sock', [], False) \<and>
           read_pending c' \<noteq> 0 \<and> framer_inv c' (rbuf sock' @ fut) rest)"
    by blast
  from alt show ?thesis
  proof
    assume a: "read_action_loop c1 sock (19 - int (length (sdata (ibuf c1)))) [] = (c', sock', [], True) \<and>
           (\<exists>m rest'. rest = m # rest' \<and> sdata (ibuf c') = m \<and> rbuf sock' @ fut = concat rest')"
    then obtain m rest' where r: "rest = m # rest'" "sdata (ibuf c') = m"
      "rbuf sock' @ fut = concat rest'" by blast
    have "framer_inv (c'\<lparr>read_pending := 0\<rparr>) (rbuf sock' @ fut) rest'"
      using r(3) by (simp add: framer_inv_def)
    with a r op' show ?thesis
      by (intro exI [of _ "c'\<lparr>read_pending := 0\<rparr>"] exI [of _ sock'] exI [of _ "[m]"]
          exI [of _ rest']) simp
  next
    assume a: "read_action_loop c1 sock (19 - int (length (sdata (ibuf c1)))) [] = (c', sock', [], False) \<and>
           read_pending c' \<noteq> 0 \<and> framer_inv c' (rbuf sock' @ fut) rest"
    with op' show ?thesis
      by (intro exI [of _ c'] exI [of _ sock'] exI [of _ "[]"] exI [of _ rest]) simp
  qed
qed

lemma read_action_step:
  assumes wf: "list_all wf_msg rest"
    and inv: "framer_inv c (rbuf sock @ fut) rest"
    and op: "rend sock = Would_block"
  shows "\<exists>c' sock' d rest'.
     bgp_connection_read_action c sock = (c', sock', map Msg_dispatch d) \<and>
     rest = d @ rest' \<and> framer_inv c' (rbuf sock' @ fut) rest' \<and>
     rend sock' = Would_block \<and> (d \<noteq> [] \<longrightarrow> read_pending c' = 0)"
proof -
  consider
    (idle) "read_pending c = 0" "rbuf sock @ fut = concat rest"
  | (header) "read_pending c \<noteq> 0" "read_header c" "length (sdata (ibuf c)) < 19"
      "read_pending c = 19 - int (length (sdata (ibuf c)))"
      "sdata (ibuf c) @ rbuf sock @ fut = concat rest"
  | (body) m rest' where "read_pending c \<noteq> 0" "\<not> read_header c" "rest = m # rest'"
      "19 \<le> length (sdata (ibuf c))" "length (sdata (ibuf c)) < length m"
      "read_pending c = int (length m) - int (length (sdata (ibuf c)))"
      "sdata (ibuf c) @ rbuf sock @ fut = concat rest"
    using inv unfolding framer_inv_def by auto
  then show ?thesis
  proof cases
    case idle
    let ?c1 = "c\<lparr>ibuf := stream_reset (ibuf c), read_header := True\<rparr>"
    have "read_header ?c1" "length (sdata (ibuf ?c1)) < 19"
      "sdata (ibuf ?c1) @ rbuf sock @ fut = concat rest"
      using idle by (simp_all add: stream_reset_def)
    from after_header_phase [OF wf this op] idle(1) show ?thesis
      by (simp add: read_action_of_loop BGP_MH_HEAD_L_def stream_reset_def)
  next
    case header
    from after_header_phase [OF wf header(2,3,5) op] header(1,4) show ?thesis
      by (simp add: read_action_of_loop)
  next
    case body
    from wf body(3) have "wf_msg m" by simp
    then have big: "length m \<le> 4096" by (simp add: wf_msg_length)
    from body(5) have lo: "length (sdata (ibuf c)) \<le> length m" by simp
    from body(7,3) have inp: "sdata (ibuf c) @ rbuf sock @ fut = m @ concat rest'" by simp
    from body_phase [OF body(2) lo big inp op, of "[]"] obtain c' sock' where
      op': "rend sock' = Would_block" and nh': "\<not> read_header c'" and
      alt: "(read_action_loop c sock (int (length m) - int (length (sdata (ibuf c)))) [] =
              (c', sock', [], True) \<and> sdata (ibuf c') = m \<and> rbuf sock' @ fut = concat rest') \<or>
            (read_action_loop c sock (int (length m) - int (length (sdata (ibuf c)))) [] =
              (c', sock', [], False) \<and>
             length (sdata (ibuf c)) \<le> length (sdata (ibuf c')) \<and>
             length (sdata (ibuf c')) < length m \<and>
             read_pending c' = int (length m) - int (length (sdata (ibuf c'))) \<and>
             sdata (ibuf c') @ rbuf sock' @ fut = m @ concat rest')"
      by blast
    from alt show ?thesis
    proof
      assume a: "read_action_loop c sock (int (length m) - int (length (sdata (ibuf c)))) [] =
              (c', sock', [], True) \<and> sdata (ibuf c') = m \<and> rbuf sock' @ fut = concat rest'"
      then have "framer_inv (c'\<lparr>read_pending := 0\<rparr>) (rbuf sock' @ fut) rest'"
        by (simp add: framer_inv_def)
      with a body(1,3,6) op' show ?thesis
        by (intro exI [of _ "c'\<lparr>read_pending := 0\<rparr>"] exI [of _ sock'] exI [of _ "[m]"]
            exI [of _ rest']) (simp add: read_action_of_loop)
    next
      assume a: "read_action_loop c sock (int (length m) - int (length (sdata (ibuf c)))) [] =
              (c', sock', [], False) \<and>
             length (sdata (ibuf c)) \<le> length (sdata (ibuf c')) \<and>
             length (sdata (ibuf c')) < length m \<and>
             read_pending c' = int (length m) - int (length (sdata (ibuf c'))) \<and>
             sdata (ibuf c') @ rbuf sock' @ fut = m @ concat rest'"
      with body(3,4) nh' have "framer_inv c' (rbuf sock' @ fut) rest"
        by (simp add: framer_inv_def)
      with a body(1,6) op' show ?thesis
        by (intro exI [of _ c'] exI [of _ sock'] exI [of _ "[]"] exI [of _ rest])
          (simp add: read_action_of_loop)
    qed
  qed
qed


lemma framer_inv_drained:
  assumes wf: "list_all wf_msg rest" and inv: "framer_inv c [] rest"
  shows "rest = []"
proof (cases rest)
  case Nil
  then show ?thesis .
next
  case (Cons m rest')
  with wf have "19 \<le> length m" by (simp add: wf_msg_length)
  then have "19 \<le> length (concat rest)" "length m \<le> length (concat rest)" "concat rest \<noteq> []"
    using Cons by auto
  with inv Cons show ?thesis
    unfolding framer_inv_def by auto
qed

lemma check_header_bound: "fst (bgp_msg_check_header s) \<le> 4096"
  by (simp add: bgp_msg_check_header_def hdr_ok_def BGP_MAX_MSG_L_def BGP_MH_HEAD_L_def)

lemma read_action_loop_body_takes:
  assumes "rend sock = Would_block" "0 \<le> want" "want < 2 ^ 64" "\<not> read_header c"
  shows "length (rbuf (fst (snd (read_action_loop c sock want effs)))) =
         length (rbuf sock) - nat want"
  using assms(4)
  by (subst read_action_loop_open [OF assms(1-3)]) (simp add: Let_def)

lemma read_action_loop_takes:
  assumes op: "rend sock = Would_block" and w: "0 < want" "want < 2 ^ 64"
    and ne: "rbuf sock \<noteq> []"
  shows "length (rbuf (fst (snd (read_action_loop c sock want effs)))) < length (rbuf sock)"
proof -
  let ?c2 = "c\<lparr>ibuf := (ibuf c)\<lparr>sdata := sdata (ibuf c) @ take (nat want) (rbuf sock)\<rparr>,
                read_header := False\<rparr>"
  let ?sock1 = "sock\<lparr>rbuf := drop (nat want) (rbuf sock)\<rparr>"
  let ?w2 = "fst (bgp_msg_check_header (ibuf ?c2))"
  from w ne have shorter: "length (rbuf ?sock1) < length (rbuf sock)"
    by simp
  have w2: "?w2 < 2 ^ 64"
    using check_header_bound [of "ibuf ?c2"] by simp
  have again: "length (rbuf (fst (snd (read_action_loop ?c2 ?sock1 ?w2 effs2)))) \<le>
               length (rbuf ?sock1)" if "0 \<le> ?w2" for effs2
  proof -
    have "length (rbuf (fst (snd (read_action_loop ?c2 ?sock1 ?w2 effs2)))) =
          length (rbuf ?sock1) - nat ?w2"
      by (rule read_action_loop_body_takes) (use op that w2 in simp_all)
    then show ?thesis by linarith
  qed
  from w have w0: "0 \<le> want" by simp
  show ?thesis
  proof (cases "int (min (nat want) (length (rbuf sock))) = want \<and> read_header c \<and> 0 \<le> ?w2")
    case True
    then have "read_action_loop c sock want effs =
               read_action_loop ?c2 ?sock1 ?w2 (effs @ snd (bgp_msg_check_header (ibuf ?c2)))"
      by (subst read_action_loop_open [OF op w0 w(2)]) (simp add: Let_def)
    then have "length (rbuf (fst (snd (read_action_loop c sock want effs)))) =
               length (rbuf (fst (snd (read_action_loop ?c2 ?sock1 ?w2
                 (effs @ snd (bgp_msg_check_header (ibuf ?c2)))))))"
      by (simp only:)
    moreover from True
    have "length (rbuf (fst (snd (read_action_loop ?c2 ?sock1 ?w2
            (effs @ snd (bgp_msg_check_header (ibuf ?c2))))))) \<le> length (rbuf ?sock1)"
      by (intro again) simp
    ultimately show ?thesis
      using shorter by linarith
  next
    case False
    then have "fst (snd (read_action_loop c sock want effs)) = ?sock1"
      by (subst read_action_loop_open [OF op w0 w(2)]) (auto simp: Let_def)
    with shorter show ?thesis by simp
  qed
qed

lemma framer_inv_pending:
  assumes "list_all wf_msg rest" "framer_inv c inp rest"
  shows "0 \<le> read_pending c \<and> read_pending c < 2 ^ 64"
proof -
  have "length m \<le> 4096" if "rest = m # rest'" for m rest'
    using assms(1) that by (simp add: wf_msg_length)
  with assms(2) show ?thesis
    unfolding framer_inv_def by auto
qed

lemma read_action_takes:
  assumes op: "rend sock = Would_block"
    and rp: "0 \<le> read_pending c" "read_pending c < 2 ^ 64"
    and ne: "rbuf sock \<noteq> []"
  shows "length (rbuf (fst (snd (bgp_connection_read_action c sock)))) < length (rbuf sock)"
proof -
  let ?c1 = "if read_pending c = 0
             then c\<lparr>ibuf := stream_reset (ibuf c), read_header := True\<rparr> else c"
  let ?want = "if read_pending c = 0 then BGP_MH_HEAD_L else read_pending c"
  from rp have w: "0 < ?want" "?want < 2 ^ 64"
    by (simp_all add: BGP_MH_HEAD_L_def)
  have "fst (snd (bgp_connection_read_action c sock)) =
        fst (snd (read_action_loop ?c1 sock ?want []))"
    by (simp add: read_action_of_loop Let_def split: prod.splits)
  with read_action_loop_takes [OF op w ne, of ?c1 "[]"] show ?thesis
    by simp
qed

lemma selector_calls_drain:
  assumes "list_all wf_msg rest"
    and "framer_inv c (rbuf sock @ fut) rest"
    and "rend sock = Would_block"
    and "length (rbuf sock) \<le> n"
  shows "\<exists>c' sock' tr d rest'.
     selector_calls n c sock = (c', sock', tr) \<and> rbuf sock' = [] \<and>
     rend sock' = Would_block \<and> rest = d @ rest' \<and> framer_inv c' fut rest' \<and>
     concat (map fst tr) = map Msg_dispatch d \<and>
     list_all (\<lambda>(effs, rp). effs = [] \<or> rp = 0) tr"
  using assms
proof (induction n arbitrary: c sock rest)
  case 0
  then show ?case
    by (intro exI [of _ c] exI [of _ sock] exI [of _ "[]"] exI [of _ rest]) simp
next
  case (Suc n)
  show ?case
  proof (cases "rbuf sock = []")
    case True
    with Suc.prems show ?thesis
      by (intro exI [of _ c] exI [of _ sock] exI [of _ "[]"] exI [of _ rest]) simp
  next
    case False
    from read_action_step [OF Suc.prems(1,2,3)] obtain c1 sock1 d1 rest1 where
      ra: "bgp_connection_read_action c sock = (c1, sock1, map Msg_dispatch d1)"
      and rest: "rest = d1 @ rest1"
      and inv1: "framer_inv c1 (rbuf sock1 @ fut) rest1"
      and op1: "rend sock1 = Would_block"
      and rp: "d1 \<noteq> [] \<longrightarrow> read_pending c1 = 0"
      by blast
    from framer_inv_pending [OF Suc.prems(1,2)]
    have "length (rbuf (fst (snd (bgp_connection_read_action c sock)))) < length (rbuf sock)"
      using read_action_takes [OF Suc.prems(3) _ _ False] by simp
    with ra Suc.prems(4) have fuel: "length (rbuf sock1) \<le> n" by simp
    from Suc.prems(1) rest have wf1: "list_all wf_msg rest1" by simp
    from Suc.IH [OF wf1 inv1 op1 fuel] obtain c' sock' tr1 d2 rest' where
      run: "selector_calls n c1 sock1 = (c', sock', tr1)"
      and res: "rbuf sock' = []" "rend sock' = Would_block" "rest1 = d2 @ rest'"
        "framer_inv c' fut rest'" "concat (map fst tr1) = map Msg_dispatch d2"
        "list_all (\<lambda>(effs, rp). effs = [] \<or> rp = 0) tr1"
      by blast
    have ok: "map Msg_dispatch d1 = [] \<or> read_pending c1 = 0"
      using rp by auto
    show ?thesis
      using False ra run res rest ok
      by (intro exI [of _ c'] exI [of _ sock']
          exI [of _ "(map Msg_dispatch d1, read_pending c1) # tr1"]
          exI [of _ "d1 @ d2"] exI [of _ rest']) simp
  qed
qed

lemma deliver_dispatches:
  assumes "list_all wf_msg rest"
    and "framer_inv c (concat chunks) rest"
    and "rbuf sock = []"
    and "rend sock = Would_block"
  shows "\<exists>c' sock' tr.
     deliver c sock chunks = (c', sock', tr) \<and> rbuf sock' = [] \<and>
     concat (map fst tr) = map Msg_dispatch rest \<and>
     list_all (\<lambda>(effs, rp). effs = [] \<or> rp = 0) tr"
  using assms
proof (induction chunks arbitrary: c sock rest)
  case Nil
  then have "rest = []"
    using framer_inv_drained [of rest c] by simp
  with Nil show ?case by simp
next
  case (Cons chunk chunks)
  let ?sock1 = "sock\<lparr>rbuf := rbuf sock @ chunk\<rparr>"
  have inv: "framer_inv c (rbuf ?sock1 @ concat chunks) rest"
    using Cons.prems(2,3) by simp
  have op: "rend ?sock1 = Would_block"
    using Cons.prems(4) by simp
  have fuel: "length (rbuf ?sock1) \<le> length (rbuf sock @ chunk)"
    by simp
  from selector_calls_drain [OF Cons.prems(1) inv op fuel] obtain c1 sock1 tr1 d rest1 where
    run: "selector_calls (length (rbuf sock @ chunk)) c ?sock1 = (c1, sock1, tr1)"
    and res: "rbuf sock1 = []" "rend sock1 = Would_block" "rest = d @ rest1"
      "framer_inv c1 (concat chunks) rest1" "concat (map fst tr1) = map Msg_dispatch d"
      "list_all (\<lambda>(effs, rp). effs = [] \<or> rp = 0) tr1"
    by blast
  from Cons.prems(1) res(3) have wf1: "list_all wf_msg rest1" by simp
  from Cons.IH [OF wf1 res(4,1,2)] obtain c' sock' tr2 where
    run2: "deliver c1 sock1 chunks = (c', sock', tr2)"
    and res2: "rbuf sock' = []" "concat (map fst tr2) = map Msg_dispatch rest1"
      "list_all (\<lambda>(effs, rp). effs = [] \<or> rp = 0) tr2"
    by blast
  show ?case
    using run run2 res res2
    by (intro exI [of _ c'] exI [of _ sock'] exI [of _ "tr1 @ tr2"]) simp
qed

text \<open>
  C8: let the bytes of well-formed messages \<open>ms\<close>, cut into chunks in any way, arrive
  at the socket of a connection that is between messages (\<open>read_pending = 0\<close>), the
  selector calling \<open>bgp_connection_read_action\<close> after each arrival as long as bytes
  are unread. Then every byte is read, what the calls sent to the FSM is exactly one
  dispatch for each message of \<open>ms\<close>, in order, and nothing else, and
  \<open>read_pending\<close> is 0 on return from every call that dispatched.
\<close>

theorem read_action_reassembles:
  assumes "list_all wf_msg ms"
    and "concat chunks = concat ms"
    and "read_pending c = 0"
    and "rbuf sock = []"
    and "rend sock = Would_block"
  shows "\<exists>c' sock' tr.
     deliver c sock chunks = (c', sock', tr) \<and> rbuf sock' = [] \<and>
     concat (map fst tr) = map Msg_dispatch ms \<and>
     list_all (\<lambda>(effs, rp). effs = [] \<or> rp = 0) tr"
proof -
  from assms(2,3) have "framer_inv c (concat chunks) ms"
    by (simp add: framer_inv_def)
  from deliver_dispatches [OF assms(1) this assms(4,5)] show ?thesis .
qed

lemma selector_calls_numeral:
  "selector_calls (numeral k) c sock =
     (if rbuf sock = [] then (c, sock, [])
      else
        (case bgp_connection_read_action c sock of
           (c', sock', effs) \<Rightarrow>
             (case selector_calls (pred_numeral k) c' sock' of
                (c'', sock'', tr) \<Rightarrow> (c'', sock'', (effs, read_pending c') # tr))))"
  by (simp add: numeral_eq_Suc)

lemma s3_run:
  "deliver opened_connection quiet_socket s3_chunks =
     (opened_connection\<lparr>ibuf := (ibuf opened_connection)\<lparr>sdata := keepalive_msg\<rparr>\<rparr>,
      quiet_socket, [([], 9), ([], 1), ([Msg_dispatch keepalive_msg], 0)])"
proof -
  have r: "replicate 10 255 @ replicate 6 255 = replicate 16 (255 :: byte)"
    by (simp add: replicate_add [symmetric])
  show ?thesis
    by (simp add: s3_chunks_def quiet_socket_def opened_connection_eq selector_calls_numeral
        bgp_connection_read_action_def read_action_loop.simps stream_read_unblock_def
        size_t_of_def stream_reset_def bgp_msg_check_header_def bgp_msg_dispatch_def
        hdr_ok_def hdr_length_def hdr_type_def BGP_MH_HEAD_L_def BGP_MAX_MSG_L_def
        keepalive_msg_def Let_def nth_append r)
qed

theorem read_action_reassembles_witness:
  "(case deliver opened_connection quiet_socket s3_chunks of
      (c', sock', tr) \<Rightarrow>
        rbuf sock' = [] \<and>
        concat (map fst tr) = [Msg_dispatch keepalive_msg] \<and>
        tr = [([], 9), ([], 1), ([Msg_dispatch keepalive_msg], 0)] \<and>
        read_pending c' = 0) \<and>
   hdr_type keepalive_msg = 4 \<and> length keepalive_msg = 19"
proof -
  have wf: "list_all wf_msg [keepalive_msg]"
    by (simp add: wf_msg_def hdr_ok_def hdr_length_def hdr_type_def keepalive_msg_def
        BGP_MH_HEAD_L_def BGP_MAX_MSG_L_def nth_append)
  have arr: "concat s3_chunks = concat [keepalive_msg]"
    by (simp add: s3_chunks_def keepalive_msg_def replicate_add [symmetric])
  have start: "read_pending opened_connection = 0" "rbuf quiet_socket = []"
    "rend quiet_socket = Would_block"
    by (simp_all add: opened_connection_eq quiet_socket_def)
  from read_action_reassembles [OF wf arr start] obtain c' sock' tr where
    run: "deliver opened_connection quiet_socket s3_chunks = (c', sock', tr)"
    and res: "rbuf sock' = []" "concat (map fst tr) = map Msg_dispatch [keepalive_msg]"
    by blast
  from run s3_run have "tr = [([], 9), ([], 1), ([Msg_dispatch keepalive_msg], 0)]"
    and "read_pending c' = 0"
    by (simp_all add: opened_connection_eq)
  with run res show ?thesis
    by (simp add: hdr_type_def keepalive_msg_def nth_append)
qed

end
